theory Spec2Isabelle
  imports Main
begin

section \<open>Constants of the firmware\<close>

text \<open>
  The \<^verbatim>\<open>#define\<close>s of \<^verbatim>\<open>firmware.cpp\<close>. The target is the Arduino Pro Mini
  (ATmega328), named in the file's header: \<^verbatim>\<open>int\<close> has 16 bits there.
\<close>

abbreviation (input) MAX_INPUT_BUFFER_LEN :: int where "MAX_INPUT_BUFFER_LEN \<equiv> 127"
abbreviation (input) LED_COUNT :: int where "LED_COUNT \<equiv> 15"
abbreviation (input) DEFAULT_BRIGHTNESS :: int where "DEFAULT_BRIGHTNESS \<equiv> 128"
abbreviation (input) MAX_PULSE_BRIGHTNESS :: int where "MAX_PULSE_BRIGHTNESS \<equiv> 120"
abbreviation (input) MIN_PULSE_BRIGHTNESS :: int where "MIN_PULSE_BRIGHTNESS \<equiv> 20"
abbreviation (input) PULSE_BRIGHTNESS_STEP :: int where "PULSE_BRIGHTNESS_STEP \<equiv> 5"

abbreviation (input) LED_BUILTIN :: nat where "LED_BUILTIN \<equiv> 13"
abbreviation (input) HIGH :: bool where "HIGH \<equiv> True"
abbreviation (input) LOW :: bool where "LOW \<equiv> False"

abbreviation (input) NUL :: char where "NUL \<equiv> CHR 0x00"
abbreviation (input) LF :: char where "LF \<equiv> CHR 0x0A"
abbreviation (input) CR :: char where "CR \<equiv> CHR 0x0D"
abbreviation (input) SPACE :: char where "SPACE \<equiv> CHR '' ''"

section \<open>State and observable events\<close>

text \<open>
  Modelled from the spec: the strip driver (\<^verbatim>\<open>Color\<close>, \<^verbatim>\<open>setBrightness\<close>,
  \<^verbatim>\<open>getBrightness\<close>, \<^verbatim>\<open>setPixelColor\<close>, \<^verbatim>\<open>show\<close>), \<^verbatim>\<open>Serial.println\<close>,
  \<^verbatim>\<open>digitalWrite\<close> and \<^verbatim>\<open>delay\<close> come from Adafruit_NeoPixel.h and Arduino.h,
  which are not among the sources. The strip is the ordered sequence of pixel colours
  (three channels each) with one global brightness; mutations become visible at a show.
  Every call into these capabilities is recorded, in order, in \<open>trace\<close>; \<open>Show\<close>
  records the pixels and the brightness that are flushed to the hardware.
\<close>

type_synonym colour = "int \<times> int \<times> int"

datatype event =
    DigitalWrite nat bool
  | SerialPrintln string
  | SetBrightness int
  | SetPixelColor int colour
  | Show "colour list" int
  | Delay int

record state =
  input_buffer :: "char list"
  len_input_buffer_data :: int
  pixels :: "colour list"
  brightness :: int
  is_pulsing :: bool
  pulse_rising :: bool
  led_builtin :: bool
  trace :: "event list"

text \<open>Faults of the C program that the total model makes explicit.\<close>

datatype error = NullPointer | DivisionByZero

definition emit :: "event \<Rightarrow> state \<Rightarrow> state" where
  "emit e s = s\<lparr>trace := trace s @ [e]\<rparr>"

definition digitalWrite :: "nat \<Rightarrow> bool \<Rightarrow> state \<Rightarrow> state" where
  "digitalWrite pin v s =
     emit (DigitalWrite pin v) (if pin = LED_BUILTIN then s\<lparr>led_builtin := v\<rparr> else s)"

definition Serial_println :: "string \<Rightarrow> state \<Rightarrow> state" where
  "Serial_println l s = emit (SerialPrintln l) s"

definition Color :: "int \<Rightarrow> int \<Rightarrow> int \<Rightarrow> colour" where
  "Color r g b = (r mod 256, g mod 256, b mod 256)"

definition setBrightness :: "int \<Rightarrow> state \<Rightarrow> state" where
  \<comment> \<open>the parameter is a \<^verbatim>\<open>uint8_t\<close>\<close>
  "setBrightness b s = emit (SetBrightness (b mod 256)) (s\<lparr>brightness := b mod 256\<rparr>)"

definition getBrightness :: "state \<Rightarrow> int" where
  "getBrightness s = brightness s"

definition setPixelColor :: "int \<Rightarrow> colour \<Rightarrow> state \<Rightarrow> state" where
  \<comment> \<open>an index outside the strip is ignored by the driver\<close>
  "setPixelColor n c s =
     emit (SetPixelColor n c)
       (if 0 \<le> n \<and> n < int (length (pixels s)) then s\<lparr>pixels := (pixels s)[nat n := c]\<rparr> else s)"

definition strip_show :: "state \<Rightarrow> state" where
  "strip_show s = emit (Show (pixels s) (brightness s)) s"

definition delay :: "int \<Rightarrow> state \<Rightarrow> state" where
  \<comment> \<open>the parameter is an \<^verbatim>\<open>unsigned long\<close> (32 bits)\<close>
  "delay ms s = emit (Delay (ms mod 2 ^ 32)) s"

section \<open>C library: 16-bit int, atoi, strtok\<close>

definition int16 :: "int \<Rightarrow> int" where
  \<comment> \<open>two's complement wrap-around of the 16-bit \<^verbatim>\<open>int\<close>\<close>
  "int16 x = (x + 32768) mod 65536 - 32768"

definition sdiv16 :: "int \<Rightarrow> int \<Rightarrow> int" where
  \<comment> \<open>C division truncates towards zero; the caller has excluded a zero divisor\<close>
  "sdiv16 a b = int16 (sgn a * sgn b * (\<bar>a\<bar> div \<bar>b\<bar>))"

definition isspace :: "char \<Rightarrow> bool" where
  "isspace c = (c = SPACE \<or> c = CHR 0x09 \<or> c = LF \<or> c = CHR 0x0B \<or> c = CHR 0x0C \<or> c = CR)"

definition isdigit :: "char \<Rightarrow> bool" where
  "isdigit c = (48 \<le> (of_char c :: nat) \<and> (of_char c :: nat) \<le> 57)"

fun digits_value :: "int \<Rightarrow> string \<Rightarrow> int" where
  "digits_value acc [] = acc"
| "digits_value acc (c # cs) =
     (if isdigit c then digits_value (int16 (acc * 10 + (of_char c - 48))) cs else acc)"

definition atoi :: "string \<Rightarrow> int" where
  \<comment> \<open>avr-libc: leading white space, an optional sign, then digits accumulated in a
      16-bit int with no overflow detection; the conversion stops at the first other
      character and yields 0 when there is no digit\<close>
  "atoi s =
     (case dropWhile isspace s of
        [] \<Rightarrow> 0
      | c # cs \<Rightarrow>
          if c = CHR ''-'' then int16 (- digits_value 0 cs)
          else if c = CHR ''+'' then digits_value 0 cs
          else digits_value 0 (c # cs))"

definition atoi_ptr :: "string option \<Rightarrow> error + int" where
  \<comment> \<open>\<^verbatim>\<open>atoi(fragment)\<close> where \<^verbatim>\<open>fragment\<close> may be the null pointer\<close>
  "atoi_ptr fragment = (case fragment of None \<Rightarrow> Inl NullPointer | Some t \<Rightarrow> Inr (atoi t))"

definition strtok :: "string \<Rightarrow> string option \<times> string" where
  \<comment> \<open>\<^verbatim>\<open>strtok(_, " ")\<close> on the text at the saved pointer: the token, or the null
      pointer when only delimiters are left, and the new saved pointer\<close>
  "strtok sv =
     (let r = dropWhile (\<lambda>c. c = SPACE) sv in
      if r = [] then (None, [])
      else (Some (takeWhile (\<lambda>c. c \<noteq> SPACE) r), drop 1 (dropWhile (\<lambda>c. c \<noteq> SPACE) r)))"

section \<open>Effect loops\<close>

function fill :: "int \<Rightarrow> colour \<Rightarrow> state \<Rightarrow> state" where
  \<comment> \<open>\<^verbatim>\<open>for(int j = ..; j < LED_COUNT; j++) strip.setPixelColor(j, c);\<close>\<close>
  "fill j c s = (if j < LED_COUNT then fill (j + 1) c (setPixelColor j c s) else s)"
  by pat_completeness auto
termination
  by (relation "measure (\<lambda>(j, c, s). nat (LED_COUNT - j))") auto

function blink_loop :: "int \<Rightarrow> int \<Rightarrow> int \<Rightarrow> colour \<Rightarrow> colour \<Rightarrow> state \<Rightarrow> state" where
  "blink_loop i repeats wait color black s =
     (if i < repeats then
        blink_loop (i + 1) repeats wait color black
          (delay wait (strip_show (fill 0 color
            (delay wait (strip_show (fill 0 black s))))))
      else s)"
  by pat_completeness auto
termination
  by (relation "measure (\<lambda>(i, repeats, wait, color, black, s). nat (repeats - i))") auto

function wipe_loop :: "int \<Rightarrow> int \<Rightarrow> colour \<Rightarrow> state \<Rightarrow> state" where
  "wipe_loop i wait color s =
     (if i < LED_COUNT then
        wipe_loop (i + 1) wait color (delay wait (strip_show (setPixelColor i color s)))
      else s)"
  by pat_completeness auto
termination
  by (relation "measure (\<lambda>(i, wait, color, s). nat (LED_COUNT - i))") auto

section \<open>process_command\<close>

text \<open>
  A branch of \<^verbatim>\<open>process_command\<close> either leaves the function at once
  (\<^verbatim>\<open>Serial.println(1); return;\<close>) or falls through to the common tail with its
  \<^verbatim>\<open>errno\<close>.

  The parameter \<open>command\<close> is the text that the pointer denotes. \<^verbatim>\<open>strtok\<close>
  overwrites each delimiter it consumes in that text with NUL; these writes are not part
  of the model's state: \<open>input_buffer\<close> after \<open>process_command\<close> is the buffer as
  the call found it. In the firmware the text is \<^verbatim>\<open>input_buffer\<close> itself, and the
  only caller zeroes it right after the call (\<open>on_byte\<close>), so the state after a
  processed line is the same with or without the writes
  (\<open>flush_input_buffer_forgets\<close>).

  C leaves \<^verbatim>\<open>duration / (2 * repeats)\<close> undefined for a zero divisor. The model
  returns the fault \<open>DivisionByZero\<close> there. On the target the division is a library
  routine that returns without trapping, so the code that follows runs with whatever
  quotient it leaves: \<open>blink_past_division\<close> is that code, for any quotient.
\<close>

datatype flow = Return state | Fallthrough state int

definition blink_effect :: "int \<Rightarrow> int \<Rightarrow> int \<Rightarrow> int \<Rightarrow> int \<Rightarrow> state \<Rightarrow> state" where
  \<comment> \<open>the blink branch after \<^verbatim>\<open>int wait = duration / (2 * repeats);\<close>\<close>
  "blink_effect red green blue repeats wait s =
     (let color = Color red green blue;
          black = Color 0 0 0;
          s1 = setBrightness DEFAULT_BRIGHTNESS (s\<lparr>is_pulsing := False\<rparr>);
          s2 = blink_loop 0 repeats wait color black s1
      in strip_show (fill 0 black s2))"

definition cmd_blink :: "string \<Rightarrow> state \<Rightarrow> error + flow" where
  "cmd_blink sv0 s =
    (case strtok sv0 of (fragment, sv1) \<Rightarrow>
     (case atoi_ptr fragment of Inl e \<Rightarrow> Inl e | Inr red \<Rightarrow>
     if 0 > red \<or> 255 < red then Inr (Return (Serial_println ''1'' s)) else
     (case strtok sv1 of (fragment, sv2) \<Rightarrow>
     (case atoi_ptr fragment of Inl e \<Rightarrow> Inl e | Inr green \<Rightarrow>
     if 0 > green \<or> 255 < green then Inr (Return (Serial_println ''1'' s)) else
     (case strtok sv2 of (fragment, sv3) \<Rightarrow>
     (case atoi_ptr fragment of Inl e \<Rightarrow> Inl e | Inr blue \<Rightarrow>
     if 0 > blue \<or> 255 < blue then Inr (Return (Serial_println ''1'' s)) else
     (case strtok sv3 of (fragment, sv4) \<Rightarrow>
     (case atoi_ptr fragment of Inl e \<Rightarrow> Inl e | Inr duration \<Rightarrow>
     if 0 > duration then Inr (Return (Serial_println ''1'' s)) else
     (case strtok sv4 of (fragment, sv5) \<Rightarrow>
     (case atoi_ptr fragment of Inl e \<Rightarrow> Inl e | Inr repeats \<Rightarrow>
     if 0 > repeats then Inr (Return (Serial_println ''1'' s)) else
     if int16 (2 * repeats) = 0 then Inl DivisionByZero else
     let wait = sdiv16 duration (int16 (2 * repeats))
     in Inr (Fallthrough (blink_effect red green blue repeats wait s) 0)))))))))))"

definition cmd_wipe :: "string \<Rightarrow> state \<Rightarrow> error + flow" where
  "cmd_wipe sv0 s =
    (case strtok sv0 of (fragment, sv1) \<Rightarrow>
     (case atoi_ptr fragment of Inl e \<Rightarrow> Inl e | Inr red \<Rightarrow>
     if 0 > red \<or> 255 < red then Inr (Return (Serial_println ''1'' s)) else
     (case strtok sv1 of (fragment, sv2) \<Rightarrow>
     (case atoi_ptr fragment of Inl e \<Rightarrow> Inl e | Inr green \<Rightarrow>
     if 0 > green \<or> 255 < green then Inr (Return (Serial_println ''1'' s)) else
     (case strtok sv2 of (fragment, sv3) \<Rightarrow>
     (case atoi_ptr fragment of Inl e \<Rightarrow> Inl e | Inr blue \<Rightarrow>
     if 0 > blue \<or> 255 < blue then Inr (Return (Serial_println ''1'' s)) else
     (case strtok sv3 of (fragment, sv4) \<Rightarrow>
     (case atoi_ptr fragment of Inl e \<Rightarrow> Inl e | Inr duration \<Rightarrow>
     if 0 > duration then Inr (Return (Serial_println ''1'' s)) else
     let color = Color red green blue;
         wait = sdiv16 duration LED_COUNT;
         s1 = setBrightness DEFAULT_BRIGHTNESS (s\<lparr>is_pulsing := False\<rparr>)
     in Inr (Fallthrough (wipe_loop 0 wait color s1) 0)))))))))"

definition cmd_color :: "string \<Rightarrow> state \<Rightarrow> error + flow" where
  "cmd_color sv0 s =
    (case strtok sv0 of (fragment, sv1) \<Rightarrow>
     (case atoi_ptr fragment of Inl e \<Rightarrow> Inl e | Inr red \<Rightarrow>
     if 0 > red \<or> 255 < red then Inr (Return (Serial_println ''1'' s)) else
     (case strtok sv1 of (fragment, sv2) \<Rightarrow>
     (case atoi_ptr fragment of Inl e \<Rightarrow> Inl e | Inr green \<Rightarrow>
     if 0 > green \<or> 255 < green then Inr (Return (Serial_println ''1'' s)) else
     (case strtok sv2 of (fragment, sv3) \<Rightarrow>
     (case atoi_ptr fragment of Inl e \<Rightarrow> Inl e | Inr blue \<Rightarrow>
     if 0 > blue \<or> 255 < blue then Inr (Return (Serial_println ''1'' s)) else
     let color = Color red green blue;
         s1 = setBrightness DEFAULT_BRIGHTNESS (s\<lparr>is_pulsing := False\<rparr>)
     in Inr (Fallthrough (strip_show (fill 0 color s1)) 0)))))))"

definition println_int :: "int \<Rightarrow> state \<Rightarrow> state" where
  \<comment> \<open>\<^verbatim>\<open>Serial.println(errno)\<close>: \<^verbatim>\<open>errno\<close> is 0 or 1\<close>
  "println_int n s = Serial_println (if n = 0 then ''0'' else ''1'') s"


definition process_command :: "string \<Rightarrow> state \<Rightarrow> error + state" where
  "process_command command s0 =
    (let s = digitalWrite LED_BUILTIN LOW s0 in
     case strtok command of
       (None, sv) \<Rightarrow> Inl NullPointer
     | (Some fragment, sv) \<Rightarrow>
        (case (if fragment = ''blink'' then cmd_blink sv s
               else if fragment = ''wipe'' then cmd_wipe sv s
               else if fragment = ''color'' then cmd_color sv s
               else if fragment = ''pulse'' then Inr (Fallthrough (s\<lparr>is_pulsing := True\<rparr>) 0)
               else Inr (Fallthrough s 1)) of
           Inl e \<Rightarrow> Inl e
         | Inr (Return s') \<Rightarrow> Inr s'
         | Inr (Fallthrough s' errno) \<Rightarrow>
             Inr (println_int errno (digitalWrite LED_BUILTIN HIGH s'))))"

section \<open>Line buffer, setup and loop\<close>

definition c_str :: "char list \<Rightarrow> string" where
  \<comment> \<open>the NUL-terminated text that a \<^verbatim>\<open>char *\<close> into the buffer denotes\<close>
  "c_str buf = takeWhile (\<lambda>c. c \<noteq> NUL) buf"

definition flush_input_buffer :: "state \<Rightarrow> state" where
  "flush_input_buffer s =
     s\<lparr>input_buffer :=
         replicate (nat (len_input_buffer_data s)) NUL
           @ drop (nat (len_input_buffer_data s)) (input_buffer s),
       len_input_buffer_data := 0\<rparr>"

definition setup_firmware :: state where
  "setup_firmware =
     digitalWrite LED_BUILTIN HIGH
       (strip_show (fill 0 (0, 0, 0)
         (setBrightness DEFAULT_BRIGHTNESS (setBrightness DEFAULT_BRIGHTNESS
           \<lparr>input_buffer = replicate (nat (MAX_INPUT_BUFFER_LEN + 1)) NUL,
            len_input_buffer_data = 0,
            pixels = replicate (nat LED_COUNT) (0, 0, 0),
            brightness = 255,
            is_pulsing = False,
            pulse_rising = False,
            led_builtin = LOW,
            trace = []\<rparr>))))"

definition on_byte :: "char \<Rightarrow> state \<Rightarrow> error + state" where
  \<comment> \<open>the \<^verbatim>\<open>switch(input)\<close> of \<^verbatim>\<open>loop\<close>; \<^verbatim>\<open>strtok\<close> writes NUL only inside
      the first \<^verbatim>\<open>len_input_buffer_data\<close> bytes, which \<^verbatim>\<open>flush_input_buffer\<close> zeroes
      right after the call\<close>
  "on_byte input s =
     (if input = NUL then Inr s
      else if input = CR \<or> input = LF then
        (if 0 < len_input_buffer_data s then
           (case process_command (c_str (input_buffer s)) s of
              Inl e \<Rightarrow> Inl e
            | Inr s' \<Rightarrow> Inr (flush_input_buffer s'))
         else Inr s)
      else
        (let s1 = s\<lparr>input_buffer := (input_buffer s)[nat (len_input_buffer_data s) := input],
                    len_input_buffer_data := len_input_buffer_data s + 1\<rparr>
         in if MAX_INPUT_BUFFER_LEN \<le> len_input_buffer_data s1
            then Inr (flush_input_buffer (Serial_println ''Input too long'' s1))
            else Inr s1))"

fun read_all :: "char list \<Rightarrow> state \<Rightarrow> error + state" where
  \<comment> \<open>\<^verbatim>\<open>while(-1 != (input = Serial.read()))\<close> over the bytes the port holds\<close>
  "read_all [] s = Inr s"
| "read_all (input # rest) s =
     (case on_byte input s of Inl e \<Rightarrow> Inl e | Inr s' \<Rightarrow> read_all rest s')"

definition pulse_step :: "state \<Rightarrow> state" where
  \<comment> \<open>the body of \<^verbatim>\<open>if(is_pulsing)\<close> in \<^verbatim>\<open>loop\<close>\<close>
  "pulse_step s =
     (let brightness = getBrightness s in
      if pulse_rising s then
        (let brightness = brightness + PULSE_BRIGHTNESS_STEP in
         if MAX_PULSE_BRIGHTNESS < brightness
         then delay 100 (strip_show (setBrightness MAX_PULSE_BRIGHTNESS (s\<lparr>pulse_rising := False\<rparr>)))
         else delay 100 (strip_show (setBrightness brightness s)))
      else
        (let brightness = brightness - PULSE_BRIGHTNESS_STEP in
         if MIN_PULSE_BRIGHTNESS > brightness
         then delay 100 (strip_show (setBrightness MIN_PULSE_BRIGHTNESS (s\<lparr>pulse_rising := True\<rparr>)))
         else delay 100 (strip_show (setBrightness brightness s))))"

definition loop :: "char list \<Rightarrow> state \<Rightarrow> error + state" where
  \<comment> \<open>one iteration; \<open>avail\<close> is what \<^verbatim>\<open>Serial\<close> delivers during it\<close>
  "loop avail s =
     (case (if avail \<noteq> [] then read_all avail s else Inr s) of
        Inl e \<Rightarrow> Inl e
      | Inr s1 \<Rightarrow> Inr (if is_pulsing s1 then pulse_step s1 else s1))"

section \<open>Token sequences and the validation rule\<close>

text \<open>
  Two notions used to state properties of whole command lines. \<open>tokens\<close> is the
  sequence of fragments that successive \<^verbatim>\<open>strtok\<close> calls return. \<open>validate\<close>
  follows the words of the specification: a colour channel must convert to an integer in
  [0,255], a duration or repeat count to a non-negative integer; arguments are consumed
  left to right and the first invalid one aborts.
\<close>

function tokens :: "string \<Rightarrow> string list" where
  "tokens sv = (case strtok sv of (None, sv') \<Rightarrow> [] | (Some t, sv') \<Rightarrow> t # tokens sv')"
  by pat_completeness auto
termination
proof (relation "measure length")
  fix sv :: string and x sv' t
  assume "(x, sv') = strtok sv" and "x = Some t"
  then have ne: "dropWhile (\<lambda>c. c = SPACE) sv \<noteq> []"
    and sv': "sv' = drop 1 (dropWhile (\<lambda>c. c \<noteq> SPACE) (dropWhile (\<lambda>c. c = SPACE) sv))"
    by (auto simp: strtok_def Let_def split: if_splits)
  have "length sv' < length (dropWhile (\<lambda>c. c = SPACE) sv)"
    using ne length_dropWhile_le [of "\<lambda>c. c \<noteq> SPACE" "dropWhile (\<lambda>c. c = SPACE) sv"]
    unfolding sv' by (cases "dropWhile (\<lambda>c. c = SPACE) sv") auto
  also have "\<dots> \<le> length sv"
    by (rule length_dropWhile_le)
  finally show "(sv', sv) \<in> measure length" by simp
qed simp

datatype kind = Channel | Count

fun valid :: "kind \<Rightarrow> int \<Rightarrow> bool" where
  "valid Channel v = (0 \<le> v \<and> v \<le> 255)"
| "valid Count v = (0 \<le> v)"

datatype verdict = Missing | Rejected | Accepted "int list"

fun validate :: "kind list \<Rightarrow> string list \<Rightarrow> verdict" where
  "validate [] ts = Accepted []"
| "validate (k # ks) [] = Missing"
| "validate (k # ks) (t # ts) =
     (if valid k (atoi t) then
        (case validate ks ts of Accepted vs \<Rightarrow> Accepted (atoi t # vs) | v \<Rightarrow> v)
      else Rejected)"

fun signature :: "string \<Rightarrow> kind list" where
  "signature c =
     (if c = ''blink'' then [Channel, Channel, Channel, Count, Count]
      else if c = ''wipe'' then [Channel, Channel, Channel, Count]
      else if c = ''color'' then [Channel, Channel, Channel]
      else [])"

definition not_a_number :: "string \<Rightarrow> bool" where
  \<comment> \<open>after optional white space and sign the token does not continue with a digit\<close>
  "not_a_number t =
     (case dropWhile isspace t of
        [] \<Rightarrow> True
      | c # cs \<Rightarrow>
          if c = CHR ''-'' \<or> c = CHR ''+'' then (case cs of [] \<Rightarrow> True | d # ds \<Rightarrow> \<not> isdigit d)
          else \<not> isdigit c)"

definition with_line :: "string \<Rightarrow> state \<Rightarrow> state" where
  \<comment> \<open>the state whose buffer holds exactly the bytes \<open>line\<close> received so far\<close>
  "with_line line s =
     s\<lparr>input_buffer := line @ replicate (nat (MAX_INPUT_BUFFER_LEN + 1) - length line) NUL,
       len_input_buffer_data := int (length line)\<rparr>"

text \<open>
  Event sequences used to state what an effect emits: \<open>paint c\<close> sets every pixel
  to \<open>c\<close> in index order, \<open>half_cycle c br wait\<close> paints, shows and waits;
  \<open>is_paint\<close> holds of the events that touch pixels or pass time.
\<close>

definition paint :: "colour \<Rightarrow> event list" where
  "paint c = map (\<lambda>j. SetPixelColor (int j) c) [0..<nat LED_COUNT]"

definition half_cycle :: "colour \<Rightarrow> int \<Rightarrow> int \<Rightarrow> event list" where
  "half_cycle c br wait = paint c @ [Show (replicate (nat LED_COUNT) c) br, Delay wait]"


section \<open>Tokenizing and validation: helper lemmas\<close>

declare fill.simps [simp del] blink_loop.simps [simp del] wipe_loop.simps [simp del] tokens.simps [simp del]

lemma strtok_fst: "fst (strtok sv) = (case tokens sv of [] \<Rightarrow> None | t # ts \<Rightarrow> Some t)"
  by (subst tokens.simps) (auto split: prod.splits option.splits)

lemma strtok_snd: "tokens (snd (strtok sv)) = tl (tokens sv)"
proof (cases "strtok sv")
  case (Pair fragment sv')
  show ?thesis
  proof (cases fragment)
    case None
    with Pair have "sv' = []"
      by (auto simp: strtok_def Let_def split: if_splits)
    with Pair None show ?thesis
      by (subst (2) tokens.simps) (simp add: tokens.simps strtok_def)
  next
    case (Some t)
    with Pair show ?thesis
      by (subst (2) tokens.simps) simp
  qed
qed

lemma cmd_color_tokens:
  "cmd_color sv s =
     (case validate [Channel, Channel, Channel] (tokens sv) of
        Missing \<Rightarrow> Inl NullPointer
      | Rejected \<Rightarrow> Inr (Return (Serial_println ''1'' s))
      | Accepted vs \<Rightarrow>
          Inr (Fallthrough (strip_show (fill 0 (Color (vs ! 0) (vs ! 1) (vs ! 2))
                 (setBrightness DEFAULT_BRIGHTNESS (s\<lparr>is_pulsing := False\<rparr>)))) 0))"
  unfolding cmd_color_def
  by (simp add: case_prod_beta strtok_fst strtok_snd atoi_ptr_def Let_def split: list.splits)

lemma cmd_wipe_tokens:
  "cmd_wipe sv s =
     (case validate [Channel, Channel, Channel, Count] (tokens sv) of
        Missing \<Rightarrow> Inl NullPointer
      | Rejected \<Rightarrow> Inr (Return (Serial_println ''1'' s))
      | Accepted vs \<Rightarrow>
          Inr (Fallthrough (wipe_loop 0 (sdiv16 (vs ! 3) LED_COUNT) (Color (vs ! 0) (vs ! 1) (vs ! 2))
                 (setBrightness DEFAULT_BRIGHTNESS (s\<lparr>is_pulsing := False\<rparr>))) 0))"
  unfolding cmd_wipe_def
  by (simp add: case_prod_beta strtok_fst strtok_snd atoi_ptr_def Let_def split: list.splits)

lemma cmd_blink_tokens:
  "cmd_blink sv s =
     (case validate [Channel, Channel, Channel, Count, Count] (tokens sv) of
        Missing \<Rightarrow> Inl NullPointer
      | Rejected \<Rightarrow> Inr (Return (Serial_println ''1'' s))
      | Accepted vs \<Rightarrow>
          if int16 (2 * vs ! 4) = 0 then Inl DivisionByZero
          else Inr (Fallthrough (strip_show (fill 0 (Color 0 0 0)
                 (blink_loop 0 (vs ! 4) (sdiv16 (vs ! 3) (int16 (2 * vs ! 4)))
                    (Color (vs ! 0) (vs ! 1) (vs ! 2)) (Color 0 0 0)
                    (setBrightness DEFAULT_BRIGHTNESS (s\<lparr>is_pulsing := False\<rparr>))))) 0))"
  unfolding cmd_blink_def blink_effect_def
  by (simp add: case_prod_beta strtok_fst strtok_snd atoi_ptr_def Let_def split: list.splits)

lemma process_command_tokens:
  "process_command command s =
     (case tokens command of
        [] \<Rightarrow> Inl NullPointer
      | c # args \<Rightarrow>
         (case (if c = ''blink'' then cmd_blink (snd (strtok command)) (digitalWrite LED_BUILTIN LOW s)
               else if c = ''wipe'' then cmd_wipe (snd (strtok command)) (digitalWrite LED_BUILTIN LOW s)
               else if c = ''color'' then cmd_color (snd (strtok command)) (digitalWrite LED_BUILTIN LOW s)
               else if c = ''pulse'' then Inr (Fallthrough ((digitalWrite LED_BUILTIN LOW s)\<lparr>is_pulsing := True\<rparr>) 0)
               else Inr (Fallthrough (digitalWrite LED_BUILTIN LOW s) 1)) of
           Inl e \<Rightarrow> Inl e
         | Inr (Return s') \<Rightarrow> Inr s'
         | Inr (Fallthrough s' errno) \<Rightarrow>
             Inr (println_int errno (digitalWrite LED_BUILTIN HIGH s'))))"
  unfolding process_command_def Let_def
  using strtok_fst [of command]
  by (cases "strtok command") (auto split: list.splits option.splits)

lemma validate_cong:
  "map atoi ts = map atoi ts' \<Longrightarrow> validate ks ts = validate ks ts'"
proof (induction ks ts arbitrary: ts' rule: validate.induct)
  case (3 k ks t ts)
  then obtain t' ts'' where ts': "ts' = t' # ts''" by (cases ts') auto
  with "3.prems" have hd: "atoi t = atoi t'" and tl: "map atoi ts = map atoi ts''" by auto
  show ?case
  proof (cases "valid k (atoi t)")
    case True
    with "3.IH" [OF True tl] show ?thesis by (simp add: ts' hd cong: verdict.case_cong)
  next
    case False
    then show ?thesis by (simp add: ts' hd)
  qed
qed auto

lemma validate_Rejected:
  "i < length ks \<Longrightarrow> i < length ts \<Longrightarrow> \<not> valid (ks ! i) (atoi (ts ! i)) \<Longrightarrow>
   \<forall>j<i. valid (ks ! j) (atoi (ts ! j)) \<Longrightarrow> validate ks ts = Rejected"
proof (induction ks ts arbitrary: i rule: validate.induct)
  case (3 k ks t ts)
  show ?case
  proof (cases i)
    case 0
    with 3 show ?thesis by simp
  next
    case (Suc n)
    with 3 have "valid k (atoi t)" by auto
    moreover have "validate ks ts = Rejected"
      using 3 Suc by (intro "3.IH" [of n]) auto
    ultimately show ?thesis by simp
  qed
qed auto

lemma validate_Missing:
  "length ts < length ks \<Longrightarrow> \<forall>j<length ts. valid (ks ! j) (atoi (ts ! j)) \<Longrightarrow>
   validate ks ts = Missing"
proof (induction ks ts rule: validate.induct)
  case (3 k ks t ts)
  have "valid k (atoi t)" using 3(3) by auto
  moreover have "validate ks ts = Missing"
    using 3 by (intro "3.IH") auto
  ultimately show ?case by simp
qed auto

lemma tokens_args: "tokens command = c # args \<Longrightarrow> tokens (snd (strtok command)) = args"
  by (simp add: strtok_snd)

lemma process_command_Rejected:
  assumes "tokens command = c # args"
    and "c = ''blink'' \<or> c = ''wipe'' \<or> c = ''color''"
    and "validate (signature c) args = Rejected"
  shows "process_command command s = Inr (Serial_println ''1'' (digitalWrite LED_BUILTIN LOW s))"
proof -
  consider "c = ''blink''" | "c = ''wipe''" | "c = ''color''"
    using assms(2) by blast
  then show ?thesis
  proof cases
    case 1
    with assms(1,3) show ?thesis
      by (simp add: process_command_tokens tokens_args cmd_blink_tokens)
  next
    case 2
    with assms(1,3) show ?thesis
      by (simp add: process_command_tokens tokens_args cmd_wipe_tokens)
  next
    case 3
    with assms(1,3) show ?thesis
      by (simp add: process_command_tokens tokens_args cmd_color_tokens)
  qed
qed

lemma process_command_Missing:
  assumes "tokens command = c # args"
    and "c = ''blink'' \<or> c = ''wipe'' \<or> c = ''color''"
    and "validate (signature c) args = Missing"
  shows "process_command command s = Inl NullPointer"
proof -
  consider "c = ''blink''" | "c = ''wipe''" | "c = ''color''"
    using assms(2) by blast
  then show ?thesis
  proof cases
    case 1
    with assms(1,3) show ?thesis
      by (simp add: process_command_tokens tokens_args cmd_blink_tokens)
  next
    case 2
    with assms(1,3) show ?thesis
      by (simp add: process_command_tokens tokens_args cmd_wipe_tokens)
  next
    case 3
    with assms(1,3) show ?thesis
      by (simp add: process_command_tokens tokens_args cmd_color_tokens)
  qed
qed

lemma process_command_blink:
  assumes "tokens command = ''blink'' # args"
    and "validate (signature ''blink'') args = Accepted vs"
  shows "process_command command s =
     (if int16 (2 * vs ! 4) = 0 then Inl DivisionByZero
      else Inr (println_int 0 (digitalWrite LED_BUILTIN HIGH
             (strip_show (fill 0 (Color 0 0 0)
               (blink_loop 0 (vs ! 4) (sdiv16 (vs ! 3) (int16 (2 * vs ! 4)))
                  (Color (vs ! 0) (vs ! 1) (vs ! 2)) (Color 0 0 0)
                  (setBrightness DEFAULT_BRIGHTNESS
                    ((digitalWrite LED_BUILTIN LOW s)\<lparr>is_pulsing := False\<rparr>))))))))"
  using assms
  by (simp add: process_command_tokens tokens_args cmd_blink_tokens)



lemma process_command_pulse:
  assumes "tokens command = ''pulse'' # args"
  shows "process_command command s =
     Inr (println_int 0 (digitalWrite LED_BUILTIN HIGH
       ((digitalWrite LED_BUILTIN LOW s)\<lparr>is_pulsing := True\<rparr>)))"
  using assms by (simp add: process_command_tokens)

lemma process_command_unrecognized:
  assumes "tokens command = c # args"
    and "c \<noteq> ''blink''" "c \<noteq> ''wipe''" "c \<noteq> ''color''" "c \<noteq> ''pulse''"
  shows "process_command command s =
     Inr (println_int 1 (digitalWrite LED_BUILTIN HIGH (digitalWrite LED_BUILTIN LOW s)))"
  using assms by (simp add: process_command_tokens)

section \<open>Rejected arguments\<close>

text \<open>
  What the early returns do, for blink, wipe and color: when some argument fails
  validation and every argument before it is present and valid, the interpreter stops
  there, whatever follows on the line. It emits status 1; no pixel is set, nothing is
  shown, the brightness is not reset and the pulsing flags keep their values. The one
  other event is the write to the activity indicator at entry, and the indicator is
  left LOW.
\<close>

lemma invalid_argument_effects:
  assumes "tokens command = c # args"
    and "c = ''blink'' \<or> c = ''wipe'' \<or> c = ''color''"
    and "i < length (signature c)" and "i < length args"
    and "\<not> valid (signature c ! i) (atoi (args ! i))"
    and "\<forall>j<i. valid (signature c ! j) (atoi (args ! j))"
  shows "\<exists>s'. process_command command s = Inr s'
           \<and> trace s' = trace s @ [DigitalWrite LED_BUILTIN LOW, SerialPrintln ''1'']
           \<and> pixels s' = pixels s \<and> brightness s' = brightness s
           \<and> is_pulsing s' = is_pulsing s \<and> pulse_rising s' = pulse_rising s
           \<and> led_builtin s' = LOW"
proof -
  have "validate (signature c) args = Rejected"
    using assms(3-6) by (rule validate_Rejected)
  then have "process_command command s = Inr (Serial_println ''1'' (digitalWrite LED_BUILTIN LOW s))"
    using assms(1,2) by (intro process_command_Rejected)
  then show ?thesis
    by (simp add: Serial_println_def digitalWrite_def emit_def)
qed

text \<open>
  C3 at the line "wipe 10 20 300 x", received in the state that \<^verbatim>\<open>setup\<close> leaves. The
  blue channel fails validation; status 1 is emitted and the strip, the brightness and
  the pulsing flags are untouched, but the state is not unchanged: the activity
  indicator, HIGH before the line, is LOW after it, since the early return leaves
  without the write back to HIGH that the end of \<^verbatim>\<open>process_command\<close> performs. The
  same holds after the whole line has gone through the serial loop.
\<close>

theorem rejected_argument_changes_indicator:
  "led_builtin setup_firmware = HIGH
   \<and> process_command ''wipe 10 20 300 x'' setup_firmware =
     Inr (setup_firmware
       \<lparr>led_builtin := LOW,
        trace := trace setup_firmware @ [DigitalWrite LED_BUILTIN LOW, SerialPrintln ''1'']\<rparr>)
   \<and> read_all (''wipe 10 20 300 x'' @ [LF]) setup_firmware =
     Inr (setup_firmware
       \<lparr>led_builtin := LOW,
        trace := trace setup_firmware @ [DigitalWrite LED_BUILTIN LOW, SerialPrintln ''1'']\<rparr>)"
  by code_simp

section \<open>Division by zero in blink\<close>

text \<open>
  C7. A blink line whose repeat count converts to 0 passes validation (0 is a
  non-negative integer), and the half-cycle wait is then \<^verbatim>\<open>duration / (2 * repeats)\<close>
  with a zero divisor: the guarded division of the model takes its error branch.
\<close>

theorem blink_zero_repeats_divides_by_zero:
  assumes "tokens command = ''blink'' # r # g # b # d # n # rest"
    and "valid Channel (atoi r)" and "valid Channel (atoi g)" and "valid Channel (atoi b)"
    and "valid Count (atoi d)" and "atoi n = 0"
  shows "validate (signature ''blink'') (r # g # b # d # n # rest)
           = Accepted [atoi r, atoi g, atoi b, atoi d, 0]
         \<and> process_command command s = Inl DivisionByZero"
proof -
  have v: "validate (signature ''blink'') (r # g # b # d # n # rest)
             = Accepted [atoi r, atoi g, atoi b, atoi d, 0]"
    using assms(2-6) by simp
  from process_command_blink [OF assms(1) v, of s]
  have "process_command command s = Inl DivisionByZero"
    by (simp add: int16_def)
  with v show ?thesis by simp
qed

theorem blink_zero_repeats_divides_by_zero_witness:
  "tokens ''blink 255 0 0 1000 0'' = ''blink'' # ''255'' # ''0'' # ''0'' # ''1000'' # ''0'' # []
   \<and> valid Channel (atoi ''255'') \<and> valid Channel (atoi ''0'') \<and> valid Count (atoi ''1000'')
   \<and> atoi ''0'' = 0
   \<and> validate (signature ''blink'') [''255'', ''0'', ''0'', ''1000'', ''0'']
        = Accepted [atoi ''255'', atoi ''0'', atoi ''0'', atoi ''1000'', 0]
   \<and> process_command ''blink 255 0 0 1000 0'' setup_firmware = Inl DivisionByZero
   \<and> loop (''blink 255 0 0 1000 0'' @ [LF]) setup_firmware = Inl DivisionByZero"
proof -
  have h1: "tokens ''blink 255 0 0 1000 0''
              = ''blink'' # ''255'' # ''0'' # ''0'' # ''1000'' # ''0'' # []"
    by code_simp
  have serial: "loop (''blink 255 0 0 1000 0'' @ [LF]) setup_firmware = Inl DivisionByZero"
    by code_simp
  have h2: "valid Channel (atoi ''255'')" by code_simp
  have h3: "valid Channel (atoi ''0'')" by code_simp
  have h4: "valid Count (atoi ''1000'')" by code_simp
  have h5: "atoi ''0'' = 0" by code_simp
  from blink_zero_repeats_divides_by_zero [OF h1 h2 h3 h3 h4 h5, of setup_firmware]
    h1 h2 h3 h4 h5 serial
  show ?thesis by blast
qed

section \<open>The pulse animator\<close>

lemma pulse_step_trace:
  "trace (pulse_step s) = trace s @
     [SetBrightness (brightness (pulse_step s)), Show (pixels s) (brightness (pulse_step s)),
      Delay 100]"
  by (simp add: pulse_step_def Let_def getBrightness_def delay_def strip_show_def
      setBrightness_def emit_def)

lemma pulse_step_brightness:
  assumes "0 \<le> brightness s" "brightness s \<le> 255"
  shows "brightness (pulse_step s) =
     (if pulse_rising s then
        (if MAX_PULSE_BRIGHTNESS < brightness s + PULSE_BRIGHTNESS_STEP then MAX_PULSE_BRIGHTNESS
         else brightness s + PULSE_BRIGHTNESS_STEP)
      else
        (if brightness s - PULSE_BRIGHTNESS_STEP < MIN_PULSE_BRIGHTNESS then MIN_PULSE_BRIGHTNESS
         else brightness s - PULSE_BRIGHTNESS_STEP))"
  using assms
  by (simp add: pulse_step_def Let_def getBrightness_def delay_def strip_show_def
      setBrightness_def emit_def)

lemma pulse_step_rising:
  "pulse_rising (pulse_step s) =
     (if pulse_rising s then \<not> MAX_PULSE_BRIGHTNESS < brightness s + PULSE_BRIGHTNESS_STEP
      else brightness s - PULSE_BRIGHTNESS_STEP < MIN_PULSE_BRIGHTNESS)"
  by (simp add: pulse_step_def Let_def getBrightness_def delay_def strip_show_def
      setBrightness_def emit_def)

lemma pulse_steps_in_range:
  assumes "MIN_PULSE_BRIGHTNESS \<le> brightness s" "brightness s \<le> MAX_PULSE_BRIGHTNESS"
  shows "MIN_PULSE_BRIGHTNESS \<le> brightness ((pulse_step ^^ n) s)
       \<and> brightness ((pulse_step ^^ n) s) \<le> MAX_PULSE_BRIGHTNESS"
proof (induction n)
  case 0
  with assms show ?case by simp
next
  case (Suc n)
  then show ?case by (simp add: pulse_step_brightness)
qed

lemma pulse_steps_falling:
  assumes "brightness s \<le> 255" and "\<not> pulse_rising s"
    and "MIN_PULSE_BRIGHTNESS \<le> brightness s - PULSE_BRIGHTNESS_STEP * int n"
  shows "brightness ((pulse_step ^^ n) s) = brightness s - PULSE_BRIGHTNESS_STEP * int n
       \<and> \<not> pulse_rising ((pulse_step ^^ n) s)"
  using assms(3)
proof (induction n)
  case 0
  with assms show ?case by simp
next
  case (Suc n)
  then have ih: "brightness ((pulse_step ^^ n) s) = brightness s - PULSE_BRIGHTNESS_STEP * int n"
    "\<not> pulse_rising ((pulse_step ^^ n) s)"
    by simp_all
  have b: "0 \<le> brightness ((pulse_step ^^ n) s)" "brightness ((pulse_step ^^ n) s) \<le> 255"
    using Suc.prems assms(1) ih by simp_all
  show ?case
    using Suc.prems ih by (simp add: pulse_step_brightness [OF b] pulse_step_rising)
qed

text \<open>
  C5. Starting from any brightness in [MIN_PULSE_BRIGHTNESS, MAX_PULSE_BRIGHTNESS] and
  either direction, after any number of animator steps the next step shows a brightness
  in that interval. The direction flips in exactly the steps where the stepped value
  passes the boundary of the current direction, and in those steps the value shown is
  that boundary (the maximum when rising, the minimum when falling); in every other step
  the value shown is the plain step.
\<close>

theorem pulse_animator_stays_in_range:
  assumes "MIN_PULSE_BRIGHTNESS \<le> brightness s" and "brightness s \<le> MAX_PULSE_BRIGHTNESS"
  shows "let t = (pulse_step ^^ n) s; t' = pulse_step t in
      MIN_PULSE_BRIGHTNESS \<le> brightness t' \<and> brightness t' \<le> MAX_PULSE_BRIGHTNESS
    \<and> trace t' = trace t @
        [SetBrightness (brightness t'), Show (pixels t) (brightness t'), Delay 100]
    \<and> (pulse_rising t' \<noteq> pulse_rising t) =
        (if pulse_rising t then MAX_PULSE_BRIGHTNESS < brightness t + PULSE_BRIGHTNESS_STEP
         else brightness t - PULSE_BRIGHTNESS_STEP < MIN_PULSE_BRIGHTNESS)
    \<and> brightness t' =
        (if pulse_rising t' \<noteq> pulse_rising t
         then (if pulse_rising t then MAX_PULSE_BRIGHTNESS else MIN_PULSE_BRIGHTNESS)
         else (if pulse_rising t then brightness t + PULSE_BRIGHTNESS_STEP
               else brightness t - PULSE_BRIGHTNESS_STEP))"
proof -
  define t where "t = (pulse_step ^^ n) s"
  have r: "MIN_PULSE_BRIGHTNESS \<le> brightness t" "brightness t \<le> MAX_PULSE_BRIGHTNESS"
    using pulse_steps_in_range [OF assms, of n] by (simp_all add: t_def)
  then have b: "0 \<le> brightness t" "brightness t \<le> 255" by simp_all
  have "MIN_PULSE_BRIGHTNESS \<le> brightness (pulse_step t)"
    "brightness (pulse_step t) \<le> MAX_PULSE_BRIGHTNESS"
    using r by (simp_all add: pulse_step_brightness [OF b])
  moreover have "trace (pulse_step t) = trace t @
        [SetBrightness (brightness (pulse_step t)), Show (pixels t) (brightness (pulse_step t)),
         Delay 100]"
    by (rule pulse_step_trace)
  moreover have "(pulse_rising (pulse_step t) \<noteq> pulse_rising t) =
        (if pulse_rising t then MAX_PULSE_BRIGHTNESS < brightness t + PULSE_BRIGHTNESS_STEP
         else brightness t - PULSE_BRIGHTNESS_STEP < MIN_PULSE_BRIGHTNESS)"
    by (simp add: pulse_step_rising)
  moreover have "brightness (pulse_step t) =
        (if pulse_rising (pulse_step t) \<noteq> pulse_rising t
         then (if pulse_rising t then MAX_PULSE_BRIGHTNESS else MIN_PULSE_BRIGHTNESS)
         else (if pulse_rising t then brightness t + PULSE_BRIGHTNESS_STEP
               else brightness t - PULSE_BRIGHTNESS_STEP))"
    by (simp add: pulse_step_rising pulse_step_brightness [OF b])
  ultimately show ?thesis
    unfolding Let_def t_def [symmetric] by blast
qed


theorem pulse_animator_stays_in_range_witness:
  "MIN_PULSE_BRIGHTNESS \<le> brightness (setup_firmware\<lparr>brightness := 118, pulse_rising := True\<rparr>)
   \<and> brightness (setup_firmware\<lparr>brightness := 118, pulse_rising := True\<rparr>) \<le> MAX_PULSE_BRIGHTNESS
   \<and> brightness ((pulse_step ^^ 1) (setup_firmware\<lparr>brightness := 118, pulse_rising := True\<rparr>)) = 120
   \<and> \<not> pulse_rising ((pulse_step ^^ 1) (setup_firmware\<lparr>brightness := 118, pulse_rising := True\<rparr>))
   \<and> (let t = (pulse_step ^^ 1) (setup_firmware\<lparr>brightness := 118, pulse_rising := True\<rparr>);
           t' = pulse_step t in
      MIN_PULSE_BRIGHTNESS \<le> brightness t' \<and> brightness t' \<le> MAX_PULSE_BRIGHTNESS
    \<and> trace t' = trace t @
        [SetBrightness (brightness t'), Show (pixels t) (brightness t'), Delay 100]
    \<and> (pulse_rising t' \<noteq> pulse_rising t) =
        (if pulse_rising t then MAX_PULSE_BRIGHTNESS < brightness t + PULSE_BRIGHTNESS_STEP
         else brightness t - PULSE_BRIGHTNESS_STEP < MIN_PULSE_BRIGHTNESS)
    \<and> brightness t' =
        (if pulse_rising t' \<noteq> pulse_rising t
         then (if pulse_rising t then MAX_PULSE_BRIGHTNESS else MIN_PULSE_BRIGHTNESS)
         else (if pulse_rising t then brightness t + PULSE_BRIGHTNESS_STEP
               else brightness t - PULSE_BRIGHTNESS_STEP)))"
proof -
  have h1: "MIN_PULSE_BRIGHTNESS \<le> brightness (setup_firmware\<lparr>brightness := 118, pulse_rising := True\<rparr>)"
    by simp
  have h2: "brightness (setup_firmware\<lparr>brightness := 118, pulse_rising := True\<rparr>) \<le> MAX_PULSE_BRIGHTNESS"
    by simp
  have h3: "brightness ((pulse_step ^^ 1) (setup_firmware\<lparr>brightness := 118, pulse_rising := True\<rparr>)) = 120"
    by (simp add: pulse_step_brightness)
  have h4: "\<not> pulse_rising ((pulse_step ^^ 1) (setup_firmware\<lparr>brightness := 118, pulse_rising := True\<rparr>))"
    by (simp add: pulse_step_rising)
  from pulse_animator_stays_in_range [OF h1 h2, of 1] h1 h2 h3 h4
  show ?thesis by blast
qed

text \<open>
  C10. The pulse command sets the pulsing flag and leaves brightness, pixels and
  direction alone. When the brightness is above MAX_PULSE_BRIGHTNESS and the direction is
  falling, the next loop iteration shows the brightness lowered by one step with no
  clamp against the maximum, and so does every further step as long as the value is not
  below the maximum: values above MAX_PULSE_BRIGHTNESS are displayed on the way down.
\<close>

theorem pulse_keeps_brightness_above_max:
  assumes "tokens command = ''pulse'' # args"
    and "MAX_PULSE_BRIGHTNESS < brightness s" and "brightness s \<le> 255"
    and "\<not> pulse_rising s"
  shows "\<exists>s1 s2. process_command command s = Inr s1
      \<and> is_pulsing s1 \<and> brightness s1 = brightness s \<and> pixels s1 = pixels s
      \<and> pulse_rising s1 = pulse_rising s
      \<and> trace s1 = trace s @
          [DigitalWrite LED_BUILTIN LOW, DigitalWrite LED_BUILTIN HIGH, SerialPrintln ''0'']
      \<and> loop [] s1 = Inr s2
      \<and> brightness s2 = brightness s - PULSE_BRIGHTNESS_STEP \<and> \<not> pulse_rising s2
      \<and> trace s2 = trace s1 @
          [SetBrightness (brightness s - PULSE_BRIGHTNESS_STEP),
           Show (pixels s) (brightness s - PULSE_BRIGHTNESS_STEP), Delay 100]
      \<and> (\<forall>n. MAX_PULSE_BRIGHTNESS \<le> brightness s - PULSE_BRIGHTNESS_STEP * int n \<longrightarrow>
            brightness ((pulse_step ^^ n) s1) = brightness s - PULSE_BRIGHTNESS_STEP * int n
            \<and> \<not> pulse_rising ((pulse_step ^^ n) s1))"
proof -
  define s1 where "s1 = println_int 0 (digitalWrite LED_BUILTIN HIGH
       ((digitalWrite LED_BUILTIN LOW s)\<lparr>is_pulsing := True\<rparr>))"
  have pc: "process_command command s = Inr s1"
    unfolding s1_def using assms(1) by (rule process_command_pulse)
  have f: "is_pulsing s1" "brightness s1 = brightness s" "pixels s1 = pixels s"
    "pulse_rising s1 = pulse_rising s"
    "trace s1 = trace s @
          [DigitalWrite LED_BUILTIN LOW, DigitalWrite LED_BUILTIN HIGH, SerialPrintln ''0'']"
    by (simp_all add: s1_def println_int_def Serial_println_def digitalWrite_def emit_def)
  have b: "0 \<le> brightness s1" "brightness s1 \<le> 255"
    using assms(2,3) f(2) by simp_all
  have lp: "loop [] s1 = Inr (pulse_step s1)"
    using f(1) by (simp add: loop_def)
  have st: "brightness (pulse_step s1) = brightness s - PULSE_BRIGHTNESS_STEP"
    "\<not> pulse_rising (pulse_step s1)"
    using assms(2,4) f(2,4) by (simp_all add: pulse_step_brightness [OF b] pulse_step_rising)
  have tr: "trace (pulse_step s1) = trace s1 @
          [SetBrightness (brightness s - PULSE_BRIGHTNESS_STEP),
           Show (pixels s) (brightness s - PULSE_BRIGHTNESS_STEP), Delay 100]"
    using pulse_step_trace [of s1] st(1) f(3) by simp
  have it: "\<forall>n. MAX_PULSE_BRIGHTNESS \<le> brightness s - PULSE_BRIGHTNESS_STEP * int n \<longrightarrow>
            brightness ((pulse_step ^^ n) s1) = brightness s - PULSE_BRIGHTNESS_STEP * int n
            \<and> \<not> pulse_rising ((pulse_step ^^ n) s1)"
  proof (intro allI impI)
    fix n :: nat
    assume "MAX_PULSE_BRIGHTNESS \<le> brightness s - PULSE_BRIGHTNESS_STEP * int n"
    then have "MIN_PULSE_BRIGHTNESS \<le> brightness s1 - PULSE_BRIGHTNESS_STEP * int n"
      using f(2) by simp
    from pulse_steps_falling [OF b(2) _ this] assms(4) f(2,4)
    show "brightness ((pulse_step ^^ n) s1) = brightness s - PULSE_BRIGHTNESS_STEP * int n
            \<and> \<not> pulse_rising ((pulse_step ^^ n) s1)"
      by simp
  qed
  from pc f lp st tr it show ?thesis by blast
qed

theorem pulse_keeps_brightness_above_max_witness:
  "tokens ''pulse'' = ''pulse'' # []
   \<and> MAX_PULSE_BRIGHTNESS < brightness setup_firmware \<and> brightness setup_firmware \<le> 255
   \<and> \<not> pulse_rising setup_firmware
   \<and> MAX_PULSE_BRIGHTNESS < brightness setup_firmware - PULSE_BRIGHTNESS_STEP
   \<and> (\<exists>s1 s2. process_command ''pulse'' setup_firmware = Inr s1
      \<and> is_pulsing s1 \<and> brightness s1 = brightness setup_firmware
      \<and> pixels s1 = pixels setup_firmware
      \<and> pulse_rising s1 = pulse_rising setup_firmware
      \<and> trace s1 = trace setup_firmware @
          [DigitalWrite LED_BUILTIN LOW, DigitalWrite LED_BUILTIN HIGH, SerialPrintln ''0'']
      \<and> loop [] s1 = Inr s2
      \<and> brightness s2 = brightness setup_firmware - PULSE_BRIGHTNESS_STEP
      \<and> \<not> pulse_rising s2
      \<and> trace s2 = trace s1 @
          [SetBrightness (brightness setup_firmware - PULSE_BRIGHTNESS_STEP),
           Show (pixels setup_firmware) (brightness setup_firmware - PULSE_BRIGHTNESS_STEP),
           Delay 100]
      \<and> (\<forall>n. MAX_PULSE_BRIGHTNESS \<le> brightness setup_firmware - PULSE_BRIGHTNESS_STEP * int n \<longrightarrow>
            brightness ((pulse_step ^^ n) s1)
              = brightness setup_firmware - PULSE_BRIGHTNESS_STEP * int n
            \<and> \<not> pulse_rising ((pulse_step ^^ n) s1)))"
proof -
  have h1: "tokens ''pulse'' = ''pulse'' # []" by code_simp
  have h2: "MAX_PULSE_BRIGHTNESS < brightness setup_firmware" by code_simp
  have h3: "brightness setup_firmware \<le> 255" by code_simp
  have h4: "\<not> pulse_rising setup_firmware" by code_simp
  have h5: "MAX_PULSE_BRIGHTNESS < brightness setup_firmware - PULSE_BRIGHTNESS_STEP"
    by code_simp
  from pulse_keeps_brightness_above_max [OF h1 h2 h3 h4] h1 h2 h3 h4 h5
  show ?thesis by blast
qed

section \<open>Tokens that are not numbers\<close>

lemma digits_value_no_digit:
  "(case cs of [] \<Rightarrow> True | d # ds \<Rightarrow> \<not> isdigit d) \<Longrightarrow> digits_value acc cs = acc"
  by (cases cs) simp_all

lemma atoi_not_a_number:
  assumes "not_a_number t"
  shows "atoi t = 0"
proof (cases "dropWhile isspace t")
  case Nil
  show ?thesis unfolding atoi_def Nil by simp
next
  case (Cons c cs)
  show ?thesis
  proof (cases "c = CHR ''-'' \<or> c = CHR ''+''")
    case True
    from assms True have "case cs of [] \<Rightarrow> True | d # ds \<Rightarrow> \<not> isdigit d"
      unfolding not_a_number_def Cons by simp
    then have "digits_value 0 cs = 0"
      by (rule digits_value_no_digit)
    with True show ?thesis
      unfolding atoi_def Cons by (auto simp: int16_def)
  next
    case False
    from assms False have "\<not> isdigit c"
      unfolding not_a_number_def Cons by simp
    with False show ?thesis
      unfolding atoi_def Cons by simp
  qed
qed

lemma process_command_cong:
  assumes "tokens command = c # args" and "tokens command' = c # args'"
    and "map atoi args = map atoi args'"
  shows "process_command command s = process_command command' s"
proof -
  have v: "validate ks args = validate ks args'" for ks
    using assms(3) by (rule validate_cong)
  have a: "tokens (snd (strtok command)) = args" "tokens (snd (strtok command')) = args'"
    using assms(1,2) by (simp_all add: tokens_args)
  show ?thesis
    unfolding process_command_tokens assms(1,2) cmd_blink_tokens cmd_wipe_tokens cmd_color_tokens a v
    by simp
qed

text \<open>
  C1, as the code has it. A token in an argument position that does not start with a
  number is converted to 0 by \<^verbatim>\<open>atoi\<close>, and the line is processed exactly as the
  same line with the token "0" in its place: it is not rejected on account of that token.
\<close>

theorem unparseable_token_read_as_zero:
  assumes "tokens command = c # args" and "i < length args" and "not_a_number (args ! i)"
    and "tokens command' = c # args[i := ''0'']"
  shows "atoi (args ! i) = 0 \<and> process_command command s = process_command command' s"
proof -
  have z: "atoi (args ! i) = 0"
    using assms(3) by (rule atoi_not_a_number)
  have "atoi ''0'' = 0" by code_simp
  with z have "map atoi args = map atoi (args[i := ''0''])"
    using assms(2) by (simp add: map_update list_update_same_conv [THEN iffD2])
  with assms(1,4) have "process_command command s = process_command command' s"
    by (rule process_command_cong)
  with z show ?thesis by simp
qed

theorem unparseable_token_read_as_zero_witness:
  "tokens ''color red 10 10'' = ''color'' # [''red'', ''10'', ''10'']
   \<and> 0 < length [''red'', ''10'', ''10''] \<and> not_a_number ([''red'', ''10'', ''10''] ! 0)
   \<and> tokens ''color 0 10 10'' = ''color'' # [''red'', ''10'', ''10''][0 := ''0'']
   \<and> atoi ([''red'', ''10'', ''10''] ! 0) = 0
   \<and> process_command ''color red 10 10'' setup_firmware
        = process_command ''color 0 10 10'' setup_firmware"
proof -
  have h1: "tokens ''color red 10 10'' = ''color'' # [''red'', ''10'', ''10'']" by code_simp
  have h2: "0 < length [''red'', ''10'', ''10'']" by simp
  have h3: "not_a_number ([''red'', ''10'', ''10''] ! 0)" by code_simp
  have h4: "tokens ''color 0 10 10'' = ''color'' # [''red'', ''10'', ''10''][0 := ''0'']"
    by code_simp
  from unparseable_token_read_as_zero [OF h1 h2 h3 h4, of setup_firmware] h1 h2 h3 h4
  show ?thesis by blast
qed

text \<open>
  C1 as stated fails: with letters where the red channel is expected, the color command
  sets every pixel, shows the strip and answers status 0, while an out-of-range number in
  the same position is answered with status 1 and no strip event.
\<close>

theorem unparseable_channel_accepted:
  "process_command ''color red 10 10'' setup_firmware =
     Inr (setup_firmware
       \<lparr>pixels := replicate 15 (0, 10, 10),
        trace := trace setup_firmware @
          [DigitalWrite LED_BUILTIN LOW, SetBrightness DEFAULT_BRIGHTNESS,
           SetPixelColor 0 (0, 10, 10), SetPixelColor 1 (0, 10, 10), SetPixelColor 2 (0, 10, 10),
           SetPixelColor 3 (0, 10, 10), SetPixelColor 4 (0, 10, 10), SetPixelColor 5 (0, 10, 10),
           SetPixelColor 6 (0, 10, 10), SetPixelColor 7 (0, 10, 10), SetPixelColor 8 (0, 10, 10),
           SetPixelColor 9 (0, 10, 10), SetPixelColor 10 (0, 10, 10), SetPixelColor 11 (0, 10, 10),
           SetPixelColor 12 (0, 10, 10), SetPixelColor 13 (0, 10, 10), SetPixelColor 14 (0, 10, 10),
           Show (replicate 15 (0, 10, 10)) DEFAULT_BRIGHTNESS,
           DigitalWrite LED_BUILTIN HIGH, SerialPrintln ''0'']\<rparr>)
   \<and> process_command ''color 256 10 10'' setup_firmware =
     Inr (setup_firmware
       \<lparr>led_builtin := LOW,
        trace := trace setup_firmware @ [DigitalWrite LED_BUILTIN LOW, SerialPrintln ''1'']\<rparr>)"
  by code_simp

section \<open>The activity indicator\<close>

text \<open>
  On the paths that fall through to the end of \<^verbatim>\<open>process_command\<close> the indicator
  goes LOW at entry and back to HIGH right before the status line: here for pulse and for
  an unrecognized name.
\<close>

lemma indicator_restored_on_fall_through:
  assumes "tokens command = c # args"
    and "c \<noteq> ''blink''" and "c \<noteq> ''wipe''" and "c \<noteq> ''color''"
  shows "\<exists>s'. process_command command s = Inr s'
      \<and> trace s' = trace s @
          [DigitalWrite LED_BUILTIN LOW, DigitalWrite LED_BUILTIN HIGH,
           SerialPrintln (if c = ''pulse'' then ''0'' else ''1'')]
      \<and> led_builtin s' = HIGH"
proof (cases "c = ''pulse''")
  case True
  with assms(1) have "process_command command s =
     Inr (println_int 0 (digitalWrite LED_BUILTIN HIGH
       ((digitalWrite LED_BUILTIN LOW s)\<lparr>is_pulsing := True\<rparr>)))"
    by (intro process_command_pulse) simp
  with True show ?thesis
    by (simp add: println_int_def Serial_println_def digitalWrite_def emit_def)
next
  case False
  with assms have "process_command command s =
     Inr (println_int 1 (digitalWrite LED_BUILTIN HIGH (digitalWrite LED_BUILTIN LOW s)))"
    by (intro process_command_unrecognized)
  with False show ?thesis
    by (simp add: println_int_def Serial_println_def digitalWrite_def emit_def)
qed

text \<open>
  C8 at the line "color 256 0 0": the indicator is driven LOW when processing begins,
  the early return emits status 1, and the indicator is never driven back to HIGH.
\<close>

theorem rejected_line_leaves_indicator_low:
  "led_builtin setup_firmware = HIGH
   \<and> process_command ''color 256 0 0'' setup_firmware =
     Inr (setup_firmware
       \<lparr>led_builtin := LOW,
        trace := trace setup_firmware @ [DigitalWrite LED_BUILTIN LOW, SerialPrintln ''1'']\<rparr>)"
  by code_simp

section \<open>The line buffer\<close>

lemma with_line_fields [simp]:
  "pixels (with_line line s) = pixels s" "brightness (with_line line s) = brightness s"
  "is_pulsing (with_line line s) = is_pulsing s" "pulse_rising (with_line line s) = pulse_rising s"
  "led_builtin (with_line line s) = led_builtin s" "trace (with_line line s) = trace s"
  "len_input_buffer_data (with_line line s) = int (length line)"
  by (simp_all add: with_line_def)

lemma with_line_empty:
  "input_buffer s = replicate 128 NUL \<Longrightarrow> len_input_buffer_data s = 0 \<Longrightarrow> with_line [] s = s"
  by (simp add: with_line_def)

lemma c_str_with_line:
  assumes "NUL \<notin> set line"
  shows "c_str (input_buffer (with_line line s)) = line"
proof -
  have "x \<noteq> NUL" if "x \<in> set line" for x
    using assms that by auto
  then have "takeWhile (\<lambda>c. c \<noteq> NUL) (line @ replicate (128 - length line) NUL)
               = line @ takeWhile (\<lambda>c. c \<noteq> NUL) (replicate (128 - length line) NUL)"
    by (rule takeWhile_append2)
  then show ?thesis
    by (simp add: c_str_def with_line_def)
qed

text \<open>
  The flush zeroes the first \<^verbatim>\<open>len_input_buffer_data\<close> bytes. Whatever was written
  into them before, by \<^verbatim>\<open>strtok\<close> for one, the flushed state is the same.
\<close>

lemma flush_input_buffer_forgets:
  assumes "drop (nat (len_input_buffer_data s)) buf = drop (nat (len_input_buffer_data s)) (input_buffer s)"
  shows "flush_input_buffer (s\<lparr>input_buffer := buf\<rparr>) = flush_input_buffer s"
  using assms by (simp add: flush_input_buffer_def)

lemma flush_input_buffer_update:
  assumes "i < nat (len_input_buffer_data s)"
  shows "flush_input_buffer (s\<lparr>input_buffer := (input_buffer s)[i := x]\<rparr>) = flush_input_buffer s"
  using assms by (intro flush_input_buffer_forgets) simp

lemma on_byte_store:
  assumes "c \<noteq> NUL" "c \<noteq> CR" "c \<noteq> LF" and "length line < 126"
  shows "on_byte c (with_line line s) = Inr (with_line (line @ [c]) s)"
proof -
  have "128 - length line = Suc (127 - length line)"
    using assms(4) by simp
  then have "(line @ replicate (128 - length line) NUL)[length line := c]
               = (line @ [c]) @ replicate (128 - length (line @ [c])) NUL"
    by (simp add: list_update_append)
  then show ?thesis
    using assms by (simp add: on_byte_def with_line_def Let_def)
qed

lemma on_byte_overflow:
  assumes "c \<noteq> NUL" "c \<noteq> CR" "c \<noteq> LF" and "length line = 126"
  shows "on_byte c (with_line line s) = Inr (with_line [] (Serial_println ''Input too long'' s))"
proof -
  have "(line @ replicate 2 NUL)[126 := c] = line @ [c, NUL]"
    using assms(4) by (simp add: list_update_append numeral_2_eq_2)
  moreover have "replicate (Suc 127) NUL = replicate 127 NUL @ [NUL]"
    by (simp only: replicate_Suc replicate_append_same)
  then have "replicate 127 NUL @ drop 127 (line @ [c, NUL]) = replicate 128 NUL"
    using assms(4) by simp
  ultimately show ?thesis
    using assms
    by (simp add: on_byte_def with_line_def Let_def flush_input_buffer_def Serial_println_def
        emit_def)
qed

lemma on_byte_terminator:
  assumes "c = CR \<or> c = LF" and "line \<noteq> []" and "NUL \<notin> set line"
  shows "on_byte c (with_line line s) =
     (case process_command line (with_line line s) of
        Inl e \<Rightarrow> Inl e
      | Inr s' \<Rightarrow> Inr (flush_input_buffer s'))"
  using assms by (auto simp: on_byte_def c_str_with_line)

lemma read_all_store:
  assumes "NUL \<notin> set bs" "CR \<notin> set bs" "LF \<notin> set bs"
    and "length line + length bs \<le> 126"
  shows "read_all (bs @ rest) (with_line line s) = read_all rest (with_line (line @ bs) s)"
  using assms
proof (induction bs arbitrary: line)
  case Nil
  then show ?case by simp
next
  case (Cons b bs)
  then have "on_byte b (with_line line s) = Inr (with_line (line @ [b]) s)"
    by (intro on_byte_store) auto
  moreover have "read_all (bs @ rest) (with_line (line @ [b]) s)
                   = read_all rest (with_line ((line @ [b]) @ bs) s)"
    using Cons.prems by (intro Cons.IH) auto
  ultimately show ?case by simp
qed

lemma read_all_overflow:
  assumes "NUL \<notin> set bs" "CR \<notin> set bs" "LF \<notin> set bs"
    and "length line + length bs = 127" and "length line < 127"
  shows "read_all (bs @ rest) (with_line line s)
           = read_all rest (with_line [] (Serial_println ''Input too long'' s))"
proof -
  from assms(4,5) have "bs \<noteq> []" by auto
  then obtain bs' c where bs: "bs = bs' @ [c]"
    by (metis rev_exhaust)
  have "read_all (bs' @ c # rest) (with_line line s)
          = read_all (c # rest) (with_line (line @ bs') s)"
    using assms bs by (intro read_all_store) auto
  moreover have "on_byte c (with_line (line @ bs') s)
          = Inr (with_line [] (Serial_println ''Input too long'' s))"
    using assms bs by (intro on_byte_overflow) auto
  ultimately show ?thesis by (simp add: bs)
qed

text \<open>
  C2, as the code has it. When a line that starts in an empty buffer reaches 127 bytes
  with no terminator, the firmware emits the over-length diagnostic, emits no status,
  clears the buffer and does not call the interpreter: the state is the one before the
  line plus the diagnostic. Whatever arrives next, the remainder of the same line
  included, is read from that state as the beginning of a new line.
\<close>

theorem overflow_clears_and_restarts:
  assumes "input_buffer s = replicate 128 NUL" and "len_input_buffer_data s = 0"
    and "length bs = 127" and "NUL \<notin> set bs" and "CR \<notin> set bs" and "LF \<notin> set bs"
  shows "read_all (bs @ rest) s = read_all rest (Serial_println ''Input too long'' s)"
proof -
  have "with_line [] s = s"
    using assms(1,2) by (rule with_line_empty)
  moreover have "with_line [] (Serial_println ''Input too long'' s)
                   = Serial_println ''Input too long'' s"
    using assms(1,2) by (intro with_line_empty) (simp_all add: Serial_println_def emit_def)
  moreover have "read_all (bs @ rest) (with_line [] s)
                   = read_all rest (with_line [] (Serial_println ''Input too long'' s))"
    using assms(3-6) by (intro read_all_overflow) auto
  ultimately show ?thesis by simp
qed

theorem overflow_clears_and_restarts_witness:
  "input_buffer setup_firmware = replicate 128 NUL \<and> len_input_buffer_data setup_firmware = 0
   \<and> length (replicate 127 (CHR ''a'')) = 127
   \<and> NUL \<notin> set (replicate 127 (CHR ''a'')) \<and> CR \<notin> set (replicate 127 (CHR ''a''))
   \<and> LF \<notin> set (replicate 127 (CHR ''a''))
   \<and> read_all (replicate 127 (CHR ''a'') @ ''pulse'' @ [LF]) setup_firmware
       = read_all (''pulse'' @ [LF]) (Serial_println ''Input too long'' setup_firmware)"
proof -
  have h1: "input_buffer setup_firmware = replicate 128 NUL" by code_simp
  have h2: "len_input_buffer_data setup_firmware = 0" by code_simp
  have h3: "length (replicate 127 (CHR ''a'')) = 127" by simp
  have h4: "NUL \<notin> set (replicate 127 (CHR ''a''))" by simp
  have h5: "CR \<notin> set (replicate 127 (CHR ''a''))" by simp
  have h6: "LF \<notin> set (replicate 127 (CHR ''a''))" by simp
  from overflow_clears_and_restarts [OF h1 h2 h3 h4 h5 h6, of "''pulse'' @ [LF]"] h1 h2 h3 h4 h5 h6
  show ?thesis by blast
qed

text \<open>
  C2 as stated fails: after 127 bytes the rest of the line, here "pulse", is buffered
  as a new line and handed to the interpreter at the terminator, which turns pulsing on
  and answers status 0.
\<close>

theorem bytes_after_overflow_are_interpreted:
  "read_all (replicate 127 (CHR ''a'') @ ''pulse'' @ [LF]) setup_firmware =
     Inr (setup_firmware
       \<lparr>is_pulsing := True,
        trace := trace setup_firmware @
          [SerialPrintln ''Input too long'', DigitalWrite LED_BUILTIN LOW,
           DigitalWrite LED_BUILTIN HIGH, SerialPrintln ''0'']\<rparr>)"
  by code_simp

section \<open>Missing arguments\<close>

lemma tokens_Nil: "tokens [] = []"
  by (simp add: tokens.simps strtok_def)

lemma read_all_line:
  assumes "input_buffer s = replicate 128 NUL" and "len_input_buffer_data s = 0"
    and "line \<noteq> []" and "length line < 127"
    and "NUL \<notin> set line" and "CR \<notin> set line" and "LF \<notin> set line"
  shows "read_all (line @ [LF]) s =
     (case process_command line (with_line line s) of
        Inl e \<Rightarrow> Inl e
      | Inr s' \<Rightarrow> Inr (flush_input_buffer s'))"
proof -
  have "with_line [] s = s"
    using assms(1,2) by (rule with_line_empty)
  moreover have "read_all (line @ [LF]) (with_line [] s) = read_all [LF] (with_line ([] @ line) s)"
    using assms(4-7) by (intro read_all_store) auto
  moreover have "on_byte LF (with_line line s) =
     (case process_command line (with_line line s) of
        Inl e \<Rightarrow> Inl e
      | Inr s' \<Rightarrow> Inr (flush_input_buffer s'))"
    using assms(3,5) by (intro on_byte_terminator) auto
  ultimately show ?thesis
    by (simp split: sum.splits)
qed

text \<open>
  C9, as the code has it. For blink, wipe and color with fewer argument tokens than the
  command takes, all of them valid, \<^verbatim>\<open>strtok\<close> returns the null pointer for the first
  missing argument and \<^verbatim>\<open>atoi\<close> is applied to it. The fault is reached from the
  serial interface by sending the line and a terminator.
\<close>

theorem missing_argument_reaches_null_token:
  assumes "tokens command = c # args"
    and "c = ''blink'' \<or> c = ''wipe'' \<or> c = ''color''"
    and "length args < length (signature c)"
    and "\<forall>j<length args. valid (signature c ! j) (atoi (args ! j))"
  shows "process_command command s = Inl NullPointer
       \<and> (input_buffer s = replicate 128 NUL \<and> len_input_buffer_data s = 0
            \<and> length command < 127
            \<and> NUL \<notin> set command \<and> CR \<notin> set command \<and> LF \<notin> set command
          \<longrightarrow> loop (command @ [LF]) s = Inl NullPointer)"
proof -
  have m: "validate (signature c) args = Missing"
    using assms(3,4) by (rule validate_Missing)
  have pc: "process_command command s' = Inl NullPointer" for s'
    using assms(1,2) m by (rule process_command_Missing)
  have ne: "command \<noteq> []"
    using assms(1) tokens_Nil by auto
  have "loop (command @ [LF]) s = Inl NullPointer"
    if "input_buffer s = replicate 128 NUL" "len_input_buffer_data s = 0"
      "length command < 127" "NUL \<notin> set command" "CR \<notin> set command" "LF \<notin> set command"
  proof -
    have "read_all (command @ [LF]) s = Inl NullPointer"
      using read_all_line [OF that(1,2) ne that(3-6)] pc [of "with_line command s"] by simp
    then show ?thesis by (simp add: loop_def)
  qed
  with pc [of s] show ?thesis by blast
qed

theorem missing_argument_reaches_null_token_witness:
  "tokens ''color 10 20'' = ''color'' # [''10'', ''20'']
   \<and> length [''10'', ''20''] < length (signature ''color'')
   \<and> valid (signature ''color'' ! 0) (atoi ([''10'', ''20''] ! 0))
   \<and> valid (signature ''color'' ! 1) (atoi ([''10'', ''20''] ! 1))
   \<and> process_command ''color 10 20'' setup_firmware = Inl NullPointer
   \<and> tokens ''blink'' = ''blink'' # []
   \<and> length ([] :: string list) < length (signature ''blink'')
   \<and> input_buffer setup_firmware = replicate 128 NUL \<and> len_input_buffer_data setup_firmware = 0
   \<and> length ''blink'' < 127
   \<and> NUL \<notin> set ''blink'' \<and> CR \<notin> set ''blink'' \<and> LF \<notin> set ''blink''
   \<and> process_command ''blink'' setup_firmware = Inl NullPointer
   \<and> loop (''blink'' @ [LF]) setup_firmware = Inl NullPointer"
proof -
  have c: "''color'' = ''blink'' \<or> ''color'' = ''wipe'' \<or> ''color'' = ''color''" by simp
  have g1: "tokens ''color 10 20'' = ''color'' # [''10'', ''20'']" by code_simp
  have g3: "length [''10'', ''20''] < length (signature ''color'')" by simp
  have v0: "valid (signature ''color'' ! 0) (atoi ([''10'', ''20''] ! 0))" by code_simp
  have v1: "valid (signature ''color'' ! 1) (atoi ([''10'', ''20''] ! 1))" by code_simp
  have g4: "\<forall>j<length [''10'', ''20'']. valid (signature ''color'' ! j) (atoi ([''10'', ''20''] ! j))"
  proof (intro allI impI)
    fix j :: nat
    assume "j < length [''10'', ''20'']"
    then have "j = 0 \<or> j = 1" by auto
    with v0 v1 show "valid (signature ''color'' ! j) (atoi ([''10'', ''20''] ! j))"
      by auto
  qed
  have h1: "tokens ''blink'' = ''blink'' # []" by code_simp
  have h2: "''blink'' = ''blink'' \<or> ''blink'' = ''wipe'' \<or> ''blink'' = ''color''" by simp
  have h3: "length ([] :: string list) < length (signature ''blink'')" by simp
  have h4: "\<forall>j<length ([] :: string list). valid (signature ''blink'' ! j) (atoi ([] ! j))"
    by simp
  have b1: "input_buffer setup_firmware = replicate 128 NUL" by code_simp
  have b2: "len_input_buffer_data setup_firmware = 0" by code_simp
  have b3: "length ''blink'' < 127" by simp
  have b4: "NUL \<notin> set ''blink''" "CR \<notin> set ''blink''" "LF \<notin> set ''blink''" by simp_all
  from missing_argument_reaches_null_token [OF g1 c g3 g4, of setup_firmware]
    missing_argument_reaches_null_token [OF h1 h2 h3 h4, of setup_firmware]
    g1 g3 v0 v1 h1 h3 b1 b2 b3 b4
  show ?thesis by blast
qed

text \<open>
  C9 as stated fails when a supplied token is invalid: "blink 300" has fewer tokens than
  blink takes, yet the interpreter answers status 1 at the first argument and never asks
  the tokenizer for the missing ones.
\<close>

theorem invalid_token_before_missing_argument:
  "tokens ''blink 300'' = [''blink'', ''300'']
   \<and> length [''300''] < length (signature ''blink'')
   \<and> process_command ''blink 300'' setup_firmware =
     Inr (setup_firmware
       \<lparr>led_builtin := LOW,
        trace := trace setup_firmware @ [DigitalWrite LED_BUILTIN LOW, SerialPrintln ''1'']\<rparr>)
   \<and> process_command ''blink 300'' setup_firmware \<noteq> Inl NullPointer"
  by code_simp

section \<open>The effect loops\<close>

lemma fill_eq:
  assumes "0 \<le> j" and "j \<le> LED_COUNT" and "length (pixels s) = nat LED_COUNT"
  shows "fill j c s =
     s\<lparr>pixels := take (nat j) (pixels s) @ replicate (nat LED_COUNT - nat j) c,
       trace := trace s @ map (\<lambda>k. SetPixelColor (int k) c) [nat j..<nat LED_COUNT]\<rparr>"
  using assms
proof (induction j c s rule: fill.induct)
  case (1 j c s)
  show ?case
  proof (cases "j < LED_COUNT")
    case False
    with "1.prems" have "j = LED_COUNT" by simp
    with "1.prems" show ?thesis
      by (subst fill.simps) simp
  next
    case True
    define n where "n = nat j"
    have j: "j = int n" and n: "n < 15"
      using True "1.prems" by (simp_all add: n_def)
    let ?s' = "setPixelColor (int n) c s"
    have s': "?s' = s\<lparr>pixels := (pixels s)[n := c], trace := trace s @ [SetPixelColor (int n) c]\<rparr>"
      using "1.prems" n by (simp add: setPixelColor_def emit_def)
    have "fill (j + 1) c (setPixelColor j c s) =
      (setPixelColor j c s)\<lparr>pixels := take (nat (j + 1)) (pixels (setPixelColor j c s))
            @ replicate (nat LED_COUNT - nat (j + 1)) c,
         trace := trace (setPixelColor j c s)
            @ map (\<lambda>k. SetPixelColor (int k) c) [nat (j + 1)..<nat LED_COUNT]\<rparr>"
      using True "1.prems" by (intro "1.IH") (simp_all add: setPixelColor_def emit_def)
    then have ih: "fill (int n + 1) c ?s' =
      ?s'\<lparr>pixels := take (nat (int n + 1)) (pixels ?s') @ replicate (nat LED_COUNT - nat (int n + 1)) c,
         trace := trace ?s' @ map (\<lambda>k. SetPixelColor (int k) c) [nat (int n + 1)..<nat LED_COUNT]\<rparr>"
      unfolding j .
    have "nat (int n + 1) = Suc n" by simp
    moreover have "take (Suc n) ((pixels s)[n := c]) = take n (pixels s) @ [c]"
      using "1.prems" n by (simp add: take_Suc_conv_app_nth)
    moreover have "15 - n = Suc (15 - Suc n)" using n by simp
    then have "replicate (15 - n) c = c # replicate (15 - Suc n) c"
      by (simp only: replicate_Suc)
    moreover have "[n..<15] = n # [Suc n..<15]"
      using n by (simp add: upt_conv_Cons)
    ultimately show ?thesis
      unfolding j using n ih by (subst fill.simps) (simp add: s')
  qed
qed

lemma fill_all:
  assumes "length (pixels s) = nat LED_COUNT"
  shows "fill 0 c s = s\<lparr>pixels := replicate (nat LED_COUNT) c, trace := trace s @ paint c\<rparr>"
  using fill_eq [of 0 s c] assms by (simp add: paint_def)

lemma half_cycle_eq:
  assumes "length (pixels s) = nat LED_COUNT"
  shows "delay wait (strip_show (fill 0 c s)) =
     s\<lparr>pixels := replicate (nat LED_COUNT) c,
       trace := trace s @ half_cycle c (brightness s) (wait mod 2 ^ 32)\<rparr>"
  using assms by (simp add: fill_all delay_def strip_show_def emit_def half_cycle_def)

lemma blink_loop_eq:
  assumes "length (pixels s) = nat LED_COUNT" and "i \<le> repeats"
  shows "blink_loop i repeats wait color black s =
     s\<lparr>pixels := (if i < repeats then replicate (nat LED_COUNT) color else pixels s),
       trace := trace s @ concat (replicate (nat (repeats - i))
                  (half_cycle black (brightness s) (wait mod 2 ^ 32)
                    @ half_cycle color (brightness s) (wait mod 2 ^ 32)))\<rparr>"
  using assms
proof (induction i repeats wait color black s rule: blink_loop.induct)
  case (1 i repeats wait color black s)
  show ?case
  proof (cases "i < repeats")
    case False
    with "1.prems" show ?thesis
      by (subst blink_loop.simps) simp
  next
    case True
    let ?s1 = "delay wait (strip_show (fill 0 black s))"
    let ?s2 = "delay wait (strip_show (fill 0 color ?s1))"
    have s1: "?s1 = s\<lparr>pixels := replicate (nat LED_COUNT) black,
                     trace := trace s @ half_cycle black (brightness s) (wait mod 2 ^ 32)\<rparr>"
      using "1.prems" by (intro half_cycle_eq)
    have s2: "?s2 = s\<lparr>pixels := replicate (nat LED_COUNT) color,
                     trace := trace s @ half_cycle black (brightness s) (wait mod 2 ^ 32)
                                @ half_cycle color (brightness s) (wait mod 2 ^ 32)\<rparr>"
      using "1.prems" by (subst half_cycle_eq) (simp_all add: s1)
    have "blink_loop (i + 1) repeats wait color black ?s2 =
       ?s2\<lparr>pixels := (if i + 1 < repeats then replicate (nat LED_COUNT) color else pixels ?s2),
          trace := trace ?s2 @ concat (replicate (nat (repeats - (i + 1)))
                  (half_cycle black (brightness ?s2) (wait mod 2 ^ 32)
                    @ half_cycle color (brightness ?s2) (wait mod 2 ^ 32)))\<rparr>"
      using True "1.prems" by (intro "1.IH") (simp_all add: s2)
    moreover have "nat (repeats - i) = Suc (nat (repeats - (i + 1)))"
      using True by simp
    ultimately show ?thesis
      using True by (subst blink_loop.simps) (simp add: s2)
  qed
qed

lemma setPixelColor_fields [simp]:
  "brightness (setPixelColor n c s) = brightness s"
  "is_pulsing (setPixelColor n c s) = is_pulsing s"
  "pulse_rising (setPixelColor n c s) = pulse_rising s"
  "led_builtin (setPixelColor n c s) = led_builtin s"
  "input_buffer (setPixelColor n c s) = input_buffer s"
  "len_input_buffer_data (setPixelColor n c s) = len_input_buffer_data s"
  "trace (setPixelColor n c s) = trace s @ [SetPixelColor n c]"
  by (simp_all add: setPixelColor_def emit_def)

lemma strip_show_fields [simp]:
  "brightness (strip_show s) = brightness s" "pixels (strip_show s) = pixels s"
  "is_pulsing (strip_show s) = is_pulsing s"
  "pulse_rising (strip_show s) = pulse_rising s"
  "led_builtin (strip_show s) = led_builtin s"
  "input_buffer (strip_show s) = input_buffer s"
  "len_input_buffer_data (strip_show s) = len_input_buffer_data s"
  "trace (strip_show s) = trace s @ [Show (pixels s) (brightness s)]"
  by (simp_all add: strip_show_def emit_def)

lemma delay_fields [simp]:
  "brightness (delay ms s) = brightness s" "pixels (delay ms s) = pixels s"
  "is_pulsing (delay ms s) = is_pulsing s"
  "pulse_rising (delay ms s) = pulse_rising s"
  "led_builtin (delay ms s) = led_builtin s"
  "input_buffer (delay ms s) = input_buffer s"
  "len_input_buffer_data (delay ms s) = len_input_buffer_data s"
  "trace (delay ms s) = trace s @ [Delay (ms mod 2 ^ 32)]"
  by (simp_all add: delay_def emit_def)

lemma fill_fields [simp]:
  "brightness (fill j c s) = brightness s \<and> is_pulsing (fill j c s) = is_pulsing s
   \<and> pulse_rising (fill j c s) = pulse_rising s \<and> led_builtin (fill j c s) = led_builtin s
   \<and> input_buffer (fill j c s) = input_buffer s
   \<and> len_input_buffer_data (fill j c s) = len_input_buffer_data s"
  by (induction j c s rule: fill.induct) (subst (1 2 3 4 5 6) fill.simps, simp)


lemma wipe_loop_fields [simp]:
  "brightness (wipe_loop i w c s) = brightness s \<and> is_pulsing (wipe_loop i w c s) = is_pulsing s
   \<and> pulse_rising (wipe_loop i w c s) = pulse_rising s
   \<and> led_builtin (wipe_loop i w c s) = led_builtin s
   \<and> input_buffer (wipe_loop i w c s) = input_buffer s
   \<and> len_input_buffer_data (wipe_loop i w c s) = len_input_buffer_data s"
  by (induction i w c s rule: wipe_loop.induct) (subst (1 2 3 4 5 6) wipe_loop.simps, simp)


lemma blink_loop_fields [simp]:
  "brightness (blink_loop i n w c b s) = brightness s
   \<and> is_pulsing (blink_loop i n w c b s) = is_pulsing s
   \<and> pulse_rising (blink_loop i n w c b s) = pulse_rising s
   \<and> led_builtin (blink_loop i n w c b s) = led_builtin s
   \<and> input_buffer (blink_loop i n w c b s) = input_buffer s
   \<and> len_input_buffer_data (blink_loop i n w c b s) = len_input_buffer_data s"
  by (induction i n w c b s rule: blink_loop.induct) (subst (1 2 3 4 5 6) blink_loop.simps, simp)


lemma setup_firmware_eq:
  "setup_firmware =
     \<lparr>input_buffer = replicate 128 NUL, len_input_buffer_data = 0,
      pixels = replicate (nat LED_COUNT) (0, 0, 0), brightness = DEFAULT_BRIGHTNESS,
      is_pulsing = False, pulse_rising = False, led_builtin = HIGH,
      trace = [SetBrightness DEFAULT_BRIGHTNESS, SetBrightness DEFAULT_BRIGHTNESS]
        @ paint (0, 0, 0)
        @ [Show (replicate (nat LED_COUNT) (0, 0, 0)) DEFAULT_BRIGHTNESS,
           DigitalWrite LED_BUILTIN HIGH]\<rparr>"
  by (simp add: setup_firmware_def setBrightness_def emit_def fill_all strip_show_def
      digitalWrite_def)

section \<open>Blink\<close>

lemma validate_Accepted_values:
  "validate ks ts = Accepted vs \<Longrightarrow>
     length vs = length ks \<and> (\<forall>j<length ks. valid (ks ! j) (vs ! j))"
proof (induction ks ts arbitrary: vs rule: validate.induct)
  case (3 k ks t ts)
  from "3.prems" have v: "valid k (atoi t)"
    by (simp split: if_splits)
  with "3.prems" obtain ws where ws: "validate ks ts = Accepted ws" and vs: "vs = atoi t # ws"
    by (auto split: verdict.splits)
  from "3.IH" [OF v ws] have "length ws = length ks" and "\<forall>j<length ks. valid (ks ! j) (ws ! j)"
    by simp_all
  with v vs show ?case
    by (auto simp: nth_Cons split: nat.splits)
qed auto

lemma blink_run:
  assumes "tokens command = ''blink'' # args"
    and "validate (signature ''blink'') args = Accepted vs"
    and "int16 (2 * vs ! 4) \<noteq> 0"
    and "length (pixels s) = nat LED_COUNT"
  shows "process_command command s =
     Inr (s\<lparr>pixels := replicate (nat LED_COUNT) (0, 0, 0),
            brightness := DEFAULT_BRIGHTNESS, is_pulsing := False, led_builtin := HIGH,
            trace := trace s @ [DigitalWrite LED_BUILTIN LOW, SetBrightness DEFAULT_BRIGHTNESS]
              @ concat (replicate (nat (vs ! 4))
                  (half_cycle (0, 0, 0) DEFAULT_BRIGHTNESS
                     (sdiv16 (vs ! 3) (int16 (2 * vs ! 4)) mod 2 ^ 32)
                   @ half_cycle (Color (vs ! 0) (vs ! 1) (vs ! 2)) DEFAULT_BRIGHTNESS
                     (sdiv16 (vs ! 3) (int16 (2 * vs ! 4)) mod 2 ^ 32)))
              @ paint (0, 0, 0)
              @ [Show (replicate (nat LED_COUNT) (0, 0, 0)) DEFAULT_BRIGHTNESS,
                 DigitalWrite LED_BUILTIN HIGH, SerialPrintln ''0'']\<rparr>)"
proof -
  have n: "0 \<le> vs ! 4"
    using validate_Accepted_values [OF assms(2), THEN conjunct2, rule_format, of 4] by simp
  define s1 where "s1 = setBrightness DEFAULT_BRIGHTNESS
                    ((digitalWrite LED_BUILTIN LOW s)\<lparr>is_pulsing := False\<rparr>)"
  have s1: "s1 = s\<lparr>brightness := DEFAULT_BRIGHTNESS, is_pulsing := False, led_builtin := LOW,
                   trace := trace s @ [DigitalWrite LED_BUILTIN LOW, SetBrightness DEFAULT_BRIGHTNESS]\<rparr>"
    by (simp add: s1_def setBrightness_def digitalWrite_def emit_def)
  have len: "length (pixels s1) = nat LED_COUNT"
    using assms(4) by (simp add: s1)
  define w where "w = sdiv16 (vs ! 3) (int16 (2 * vs ! 4))"
  define col where "col = Color (vs ! 0) (vs ! 1) (vs ! 2)"
  define s2 where "s2 = blink_loop 0 (vs ! 4) w col (Color 0 0 0) s1"
  define s3 where "s3 = fill 0 (Color 0 0 0) s2"
  have black: "Color 0 0 0 = (0, 0, 0)"
    by (simp add: Color_def)
  have s2: "s2 = s\<lparr>pixels := (if 0 < vs ! 4 then replicate (nat LED_COUNT) col else pixels s),
        brightness := DEFAULT_BRIGHTNESS, is_pulsing := False, led_builtin := LOW,
        trace := trace s @ [DigitalWrite LED_BUILTIN LOW, SetBrightness DEFAULT_BRIGHTNESS]
           @ concat (replicate (nat (vs ! 4))
               (half_cycle (0, 0, 0) DEFAULT_BRIGHTNESS (w mod 2 ^ 32)
                 @ half_cycle col DEFAULT_BRIGHTNESS (w mod 2 ^ 32)))\<rparr>"
    unfolding s2_def blink_loop_eq [OF len n] by (simp add: s1 black)
  have len2: "length (pixels s2) = nat LED_COUNT"
    using assms(4) by (simp add: s2)
  have s3: "s3 = s\<lparr>pixels := replicate (nat LED_COUNT) (0, 0, 0),
        brightness := DEFAULT_BRIGHTNESS, is_pulsing := False, led_builtin := LOW,
        trace := trace s @ [DigitalWrite LED_BUILTIN LOW, SetBrightness DEFAULT_BRIGHTNESS]
           @ concat (replicate (nat (vs ! 4))
               (half_cycle (0, 0, 0) DEFAULT_BRIGHTNESS (w mod 2 ^ 32)
                 @ half_cycle col DEFAULT_BRIGHTNESS (w mod 2 ^ 32)))
           @ paint (0, 0, 0)\<rparr>"
    unfolding s3_def fill_all [OF len2] by (simp add: s2 black)
  have "process_command command s =
          Inr (println_int 0 (digitalWrite LED_BUILTIN HIGH (strip_show s3)))"
    unfolding process_command_blink [OF assms(1,2)] s3_def s2_def s1_def w_def col_def
    using assms(3) by simp
  then show ?thesis
    unfolding w_def [symmetric] col_def [symmetric]
    by (simp add: s3 strip_show_def emit_def println_int_def Serial_println_def digitalWrite_def)
qed

lemma int16_range: "- 32768 \<le> int16 x \<and> int16 x \<le> 32767"
  by (simp add: int16_def)

lemma int16_id: "- 32768 \<le> x \<Longrightarrow> x \<le> 32767 \<Longrightarrow> int16 x = x"
  by (simp add: int16_def)

lemma digits_value_range:
  "- 32768 \<le> acc \<Longrightarrow> acc \<le> 32767 \<Longrightarrow>
     - 32768 \<le> digits_value acc cs \<and> digits_value acc cs \<le> 32767"
proof (induction cs arbitrary: acc)
  case Nil
  then show ?case by simp
next
  case (Cons c cs)
  show ?case
  proof (cases "isdigit c")
    case True
    with Cons.IH [of "int16 (acc * 10 + (of_char c - 48))"] int16_range show ?thesis
      by simp
  next
    case False
    with Cons.prems show ?thesis by simp
  qed
qed

lemma atoi_range: "- 32768 \<le> atoi t \<and> atoi t \<le> 32767"
proof (cases "dropWhile isspace t")
  case Nil
  show ?thesis unfolding atoi_def Nil by simp
next
  case (Cons c cs)
  have "- 32768 \<le> digits_value 0 xs \<and> digits_value 0 xs \<le> 32767" for xs
    by (rule digits_value_range) simp_all
  then show ?thesis
    unfolding atoi_def Cons using int16_range by (simp del: digits_value.simps)
qed

lemma sdiv16_nonneg:
  assumes "0 \<le> a" and "a \<le> 32767" and "0 < b"
  shows "sdiv16 a b = a div b"
proof -
  have "0 \<le> a div b" using assms by (simp add: pos_imp_zdiv_nonneg_iff)
  moreover have "a div b \<le> a div 1" using assms by (intro zdiv_mono2) simp_all
  moreover have "sgn a * sgn b * (\<bar>a\<bar> div \<bar>b\<bar>) = a div b"
    using assms by (cases "a = 0") (simp_all add: sgn_if)
  ultimately show ?thesis
    using assms(2) by (simp add: sdiv16_def int16_def)
qed

text \<open>
  What blink does when twice the repeat count fits the 16-bit int: \<open>repeats\<close> cycles of
  black then colour, each half lasting \<open>duration div (2 * repeats)\<close> ms, then black,
  shown, and status 0.
\<close>

lemma blink_executes_cycles:
  assumes "tokens command = ''blink'' # tr # tg # tb # td # tn # rest"
    and "valid Channel (atoi tr)" and "valid Channel (atoi tg)" and "valid Channel (atoi tb)"
    and "valid Count (atoi td)"
    and "1 \<le> atoi tn" and "atoi tn \<le> 16383"
    and "length (pixels s) = nat LED_COUNT"
  shows "process_command command s =
     Inr (s\<lparr>pixels := replicate (nat LED_COUNT) (0, 0, 0),
            brightness := DEFAULT_BRIGHTNESS, is_pulsing := False, led_builtin := HIGH,
            trace := trace s @ [DigitalWrite LED_BUILTIN LOW, SetBrightness DEFAULT_BRIGHTNESS]
              @ concat (replicate (nat (atoi tn))
                  (half_cycle (0, 0, 0) DEFAULT_BRIGHTNESS (atoi td div (2 * atoi tn))
                   @ half_cycle (atoi tr, atoi tg, atoi tb) DEFAULT_BRIGHTNESS
                       (atoi td div (2 * atoi tn))))
              @ paint (0, 0, 0)
              @ [Show (replicate (nat LED_COUNT) (0, 0, 0)) DEFAULT_BRIGHTNESS,
                 DigitalWrite LED_BUILTIN HIGH, SerialPrintln ''0'']\<rparr>)"
proof -
  let ?vs = "[atoi tr, atoi tg, atoi tb, atoi td, atoi tn]"
  have v: "validate (signature ''blink'') (tr # tg # tb # td # tn # rest) = Accepted ?vs"
    using assms(2-6) by simp
  have two: "int16 (2 * atoi tn) = 2 * atoi tn"
    using assms(6,7) by (intro int16_id) simp_all
  have d: "0 \<le> atoi td" "atoi td \<le> 32767"
    using assms(5) atoi_range [of td] by simp_all
  have w: "sdiv16 (atoi td) (2 * atoi tn) = atoi td div (2 * atoi tn)"
    using d assms(6) by (intro sdiv16_nonneg) simp_all
  have "0 \<le> atoi td div (2 * atoi tn)"
    using d assms(6) by (simp add: pos_imp_zdiv_nonneg_iff)
  moreover have "atoi td div (2 * atoi tn) \<le> atoi td div 1"
    using d assms(6) by (intro zdiv_mono2) simp_all
  ultimately have m: "atoi td div (2 * atoi tn) mod 4294967296 = atoi td div (2 * atoi tn)"
    using d by simp
  have col: "Color (atoi tr) (atoi tg) (atoi tb) = (atoi tr, atoi tg, atoi tb)"
    using assms(2-4) by (simp add: Color_def)
  from blink_run [OF assms(1) v _ assms(8)] assms(6) two
  show ?thesis
    by (simp add: w m col)
qed

lemma blink_example:
  "process_command ''blink 255 0 0 1000 2'' setup_firmware =
     Inr (setup_firmware
       \<lparr>trace := trace setup_firmware
          @ [DigitalWrite LED_BUILTIN LOW, SetBrightness DEFAULT_BRIGHTNESS]
          @ concat (replicate 2
              (half_cycle (0, 0, 0) DEFAULT_BRIGHTNESS 250
               @ half_cycle (255, 0, 0) DEFAULT_BRIGHTNESS 250))
          @ paint (0, 0, 0)
          @ [Show (replicate (nat LED_COUNT) (0, 0, 0)) DEFAULT_BRIGHTNESS,
             DigitalWrite LED_BUILTIN HIGH, SerialPrintln ''0'']\<rparr>)"
proof -
  have h1: "tokens ''blink 255 0 0 1000 2''
              = ''blink'' # ''255'' # ''0'' # ''0'' # ''1000'' # ''2'' # []"
    by code_simp
  have a: "atoi ''255'' = 255" "atoi ''0'' = 0" "atoi ''1000'' = 1000" "atoi ''2'' = 2"
    by code_simp+
  have len: "length (pixels setup_firmware) = nat LED_COUNT"
    by (simp add: setup_firmware_eq)
  from blink_executes_cycles [OF h1 _ _ _ _ _ _ len]
  show ?thesis
    by (simp add: a) (simp add: setup_firmware_eq)
qed

text \<open>
  C6 at the line "blink 255 0 0 30000 20000". The arguments are valid and repeats is at
  least 1, so each half-cycle should last 30000 div (2 * 20000) = 0 ms. In the 16-bit
  int of the target \<^verbatim>\<open>2 * repeats\<close> wraps to -25536, the wait is -1, and
  \<^verbatim>\<open>delay\<close> receives it as the unsigned long 4294967295: every half-cycle of the
  20000 waits that many milliseconds.
\<close>

theorem blink_wait_overflows:
  "(30000 :: int) div (2 * 20000) = 0
   \<and> process_command ''blink 255 0 0 30000 20000'' setup_firmware =
     Inr (setup_firmware
       \<lparr>trace := trace setup_firmware
          @ [DigitalWrite LED_BUILTIN LOW, SetBrightness DEFAULT_BRIGHTNESS]
          @ concat (replicate 20000
              (half_cycle (0, 0, 0) DEFAULT_BRIGHTNESS 4294967295
               @ half_cycle (255, 0, 0) DEFAULT_BRIGHTNESS 4294967295))
          @ paint (0, 0, 0)
          @ [Show (replicate (nat LED_COUNT) (0, 0, 0)) DEFAULT_BRIGHTNESS,
             DigitalWrite LED_BUILTIN HIGH, SerialPrintln ''0'']\<rparr>)"
proof -
  have h1: "tokens ''blink 255 0 0 30000 20000''
              = ''blink'' # [''255'', ''0'', ''0'', ''30000'', ''20000'']"
    by code_simp
  have h2: "validate (signature ''blink'') [''255'', ''0'', ''0'', ''30000'', ''20000'']
              = Accepted [255, 0, 0, 30000, 20000]"
    by code_simp
  have h3: "int16 (2 * [255, 0, 0, 30000, 20000] ! 4) \<noteq> 0"
    by (simp add: int16_def)
  have len: "length (pixels setup_firmware) = nat LED_COUNT"
    by (simp add: setup_firmware_eq)
  have w: "sdiv16 30000 (int16 40000) mod 4294967296 = 4294967295"
    by (simp add: sdiv16_def int16_def)
  from blink_run [OF h1 h2 h3 len]
  show ?thesis
    by (simp add: w Color_def) (simp add: setup_firmware_eq)
qed

section \<open>Reset before an effect\<close>





text \<open>
  The instance of C4 that the specification names: pulse, one animator step, then
  color 10 10 10 leaves pulsing off and the brightness back at the default.
\<close>

lemma pulse_then_color:
  "loop (''pulse'' @ [LF]) setup_firmware =
     Inr (setup_firmware
       \<lparr>brightness := 123, is_pulsing := True,
        trace := trace setup_firmware
          @ [DigitalWrite LED_BUILTIN LOW, DigitalWrite LED_BUILTIN HIGH, SerialPrintln ''0'',
             SetBrightness 123, Show (replicate (nat LED_COUNT) (0, 0, 0)) 123, Delay 100]\<rparr>)
   \<and> loop (''color 10 10 10'' @ [LF])
       (setup_firmware
         \<lparr>brightness := 123, is_pulsing := True,
          trace := trace setup_firmware
            @ [DigitalWrite LED_BUILTIN LOW, DigitalWrite LED_BUILTIN HIGH, SerialPrintln ''0'',
               SetBrightness 123, Show (replicate (nat LED_COUNT) (0, 0, 0)) 123, Delay 100]\<rparr>) =
     Inr (setup_firmware
       \<lparr>pixels := replicate (nat LED_COUNT) (10, 10, 10),
        brightness := DEFAULT_BRIGHTNESS, is_pulsing := False,
        trace := trace setup_firmware
          @ [DigitalWrite LED_BUILTIN LOW, DigitalWrite LED_BUILTIN HIGH, SerialPrintln ''0'',
             SetBrightness 123, Show (replicate (nat LED_COUNT) (0, 0, 0)) 123, Delay 100,
             DigitalWrite LED_BUILTIN LOW, SetBrightness DEFAULT_BRIGHTNESS]
          @ paint (10, 10, 10)
          @ [Show (replicate (nat LED_COUNT) (10, 10, 10)) DEFAULT_BRIGHTNESS,
             DigitalWrite LED_BUILTIN HIGH, SerialPrintln ''0'']\<rparr>)"
  by code_simp



end
